theory Spec2Isabelle
  imports Main "HOL-Library.Word"
begin

section \<open>The atlas game server: rooms, turns and the socket handlers\<close>

text \<open>
  This theory embeds the game logic of \<^verbatim>\<open>src/api/server.js\<close>: the place validator
  \<^verbatim>\<open>isValidPlace\<close>, the room constructor \<^verbatim>\<open>createGameRoom\<close>, and the five socket
  handlers \<^verbatim>\<open>createRoom\<close>, \<^verbatim>\<open>joinRoom\<close>, \<^verbatim>\<open>startGame\<close>, \<^verbatim>\<open>submitPlace\<close> and
  \<^verbatim>\<open>disconnect\<close>. The file holds the server twice (two deployments that differ in
  their CORS and port settings); the handlers are the same text in both.

  Modelling decisions:
  \<^item> a JavaScript string is the list of its UTF-16 code units, each a 16-bit word; a
    literal of the source is written \<open>js ''..''\<close>;
  \<^item> \<^verbatim>\<open>String.prototype.toLowerCase\<close> and \<^verbatim>\<open>toUpperCase\<close> belong to the JavaScript runtime
    (they follow the Unicode case tables, and may change the length of a string): they are
    inputs of the model, the fields of a \<open>runtime\<close> record. \<^verbatim>\<open>trim\<close>, \<^verbatim>\<open>charAt\<close>,
    \<^verbatim>\<open>split(' ')\<close> and \<^verbatim>\<open>join(' ')\<close> are defined here on the code units;
  \<^item> the global \<^verbatim>\<open>gameRooms\<close> is a plain object: its own properties are a map from room
    identifiers to rooms, and \<^verbatim>\<open>gameRooms[roomId]\<close> with a client-supplied \<^verbatim>\<open>roomId\<close> also
    finds the members inherited from \<^verbatim>\<open>Object.prototype\<close> (\<open>lookupRoom\<close>);
  \<^item> the property \<^verbatim>\<open>socket.roomId\<close> of every connection is a map from the socket's id
    to the bound room identifier, \<open>None\<close> while it is \<^verbatim>\<open>undefined\<close>;
  \<^item> what a handler sends (\<^verbatim>\<open>callback\<close>, \<^verbatim>\<open>socket.emit\<close>, \<^verbatim>\<open>io.to(..).emit\<close>) and
    \<^verbatim>\<open>socket.join\<close> are returned as a list of effects, in program order;
  \<^item> reading a property of \<^verbatim>\<open>undefined\<close> throws a \<^verbatim>\<open>TypeError\<close>: the result
    \<open>Inl TypeError\<close>. No handler catches it and the source installs no handler for uncaught
    exceptions, so the process ends there and no state follows a throw;
  \<^item> the names of the \<^verbatim>\<open>country-state-city\<close> package, the token of \<^verbatim>\<open>uuidv4\<close> and
    the clock \<^verbatim>\<open>Date.now()\<close> are inputs of the model.
\<close>

subsection \<open>Strings\<close>

type_synonym code_unit = "16 word"

type_synonym jsstring = "code_unit list"

text \<open>A string literal of the source (its characters are below U+0100).\<close>

definition js :: "string \<Rightarrow> jsstring" where
  "js s = map (\<lambda>c. word_of_nat (of_char c)) s"

text \<open>The case conversions of the runtime.\<close>

record runtime =
  toLowerCase :: "jsstring \<Rightarrow> jsstring"
  toUpperCase :: "jsstring \<Rightarrow> jsstring"

text \<open>
  The code units that \<^verbatim>\<open>trim\<close> strips: the WhiteSpace and LineTerminator code points of
  ECMAScript (tab, line feed, vertical tab, form feed, carriage return, space, no-break
  space, U+1680, U+2000 to U+200A, U+2028, U+2029, U+202F, U+205F, U+3000, U+FEFF).
\<close>

definition isWhiteSpace :: "code_unit \<Rightarrow> bool" where
  "isWhiteSpace c =
     ((0x0009 \<le> c \<and> c \<le> 0x000D) \<or> c = 0x0020 \<or> c = 0x00A0 \<or> c = 0x1680
      \<or> (0x2000 \<le> c \<and> c \<le> 0x200A) \<or> c = 0x2028 \<or> c = 0x2029 \<or> c = 0x202F
      \<or> c = 0x205F \<or> c = 0x3000 \<or> c = 0xFEFF)"

definition trim :: "jsstring \<Rightarrow> jsstring" where
  "trim s = rev (dropWhile isWhiteSpace (rev (dropWhile isWhiteSpace s)))"

text \<open>\<^verbatim>\<open>s.charAt(i)\<close>: the one-unit string at index \<open>i\<close>, the empty string out of range.\<close>

definition charAt :: "jsstring \<Rightarrow> int \<Rightarrow> jsstring" where
  "charAt s i = (if 0 \<le> i \<and> i < int (length s) then [s ! nat i] else [])"

text \<open>\<^verbatim>\<open>str.split(' ')\<close>: the pieces between single spaces; the empty string gives one empty piece.\<close>

fun split_space :: "jsstring \<Rightarrow> jsstring list" where
  "split_space [] = [[]]"
| "split_space (c # cs) =
     (if c = 0x0020 then [] # split_space cs
      else (case split_space cs of
              [] \<Rightarrow> [[c]]
            | w # ws \<Rightarrow> (c # w) # ws))"

text \<open>\<^verbatim>\<open>words.join(' ')\<close>.\<close>

fun join_space :: "jsstring list \<Rightarrow> jsstring" where
  "join_space [] = []"
| "join_space [w] = w"
| "join_space (w # ws) = w @ 0x0020 # join_space ws"

subsection \<open>The place validator\<close>

text \<open>
  The names returned by \<^verbatim>\<open>Country.getAllCountries()\<close>, \<^verbatim>\<open>State.getAllStates()\<close> and
  \<^verbatim>\<open>City.getAllCities()\<close> of the external package.
\<close>

record dataset =
  countries :: "jsstring list"
  states :: "jsstring list"
  cities :: "jsstring list"

definition getFirstWords :: "runtime \<Rightarrow> jsstring \<Rightarrow> jsstring" where
  "getFirstWords rt str = toLowerCase rt (join_space (take 2 (split_space str)))"

definition isValidPlace :: "runtime \<Rightarrow> dataset \<Rightarrow> jsstring \<Rightarrow> bool" where
  "isValidPlace rt db placeName =
     (let normalizedName = toLowerCase rt (trim placeName) in
      if list_ex (\<lambda>country. getFirstWords rt country = getFirstWords rt normalizedName)
           (countries db)
        then True
      else if list_ex (\<lambda>state. getFirstWords rt state = getFirstWords rt normalizedName)
           (states db)
        then True
      else if list_ex (\<lambda>city. getFirstWords rt city = getFirstWords rt normalizedName)
           (cities db)
        then True
      else False)"

subsection \<open>Rooms and the server state\<close>

record player =
  id_player :: jsstring
  username :: jsstring
  score :: nat

record history_entry =
  player :: jsstring
  place :: jsstring
  timestamp :: nat

record room =
  players :: "player list"
  history :: "history_entry list"
  currentPlayerIndex :: nat
  letterInPlay :: jsstring
  started :: bool

record server =
  gameRooms :: "jsstring \<rightharpoonup> room"
  roomId :: "jsstring \<rightharpoonup> jsstring"

definition initial :: server where
  "initial = \<lparr>gameRooms = Map.empty, roomId = Map.empty\<rparr>"

datatype js_error = TypeError

datatype ack =
  CreateAck jsstring bool
| JoinFailed jsstring
| JoinOk room

datatype payload =
  Snapshot room
| PlayerLeft jsstring room

text \<open>
  The effects name the socket or the channel they address; the event name is the literal
  of the source.
\<close>

datatype effect =
  SocketJoin jsstring jsstring
| Callback jsstring ack
| Emit jsstring string jsstring
| Broadcast jsstring string payload

text \<open>
  \<^verbatim>\<open>createGameRoom\<close>; \<open>token\<close> is \<^verbatim>\<open>uuidv4().substring(0, 6)\<close>, six hexadecimal digits
  (\<open>uuidToken\<close> below). An entry already stored under the token is overwritten.
\<close>

definition createGameRoom ::
  "jsstring \<Rightarrow> (jsstring \<rightharpoonup> room) \<Rightarrow> jsstring \<times> (jsstring \<rightharpoonup> room)" where
  "createGameRoom token rooms =
     (token, rooms(token \<mapsto>
        \<lparr>players = [], history = [], currentPlayerIndex = 0, letterInPlay = [], started = False\<rparr>))"

definition hexDigit :: "code_unit \<Rightarrow> bool" where
  "hexDigit c = ((0x0030 \<le> c \<and> c \<le> 0x0039) \<or> (0x0061 \<le> c \<and> c \<le> 0x0066))"

definition uuidToken :: "jsstring \<Rightarrow> bool" where
  "uuidToken t = (length t = 6 \<and> list_all hexDigit t)"

text \<open>
  The names of the members that every plain object inherits from \<^verbatim>\<open>Object.prototype\<close>.
  Each of them is a function or an object, so it is truthy and has neither a \<^verbatim>\<open>started\<close>
  nor a \<^verbatim>\<open>players\<close> property.
\<close>

definition objectPrototypeKeys :: "jsstring list" where
  "objectPrototypeKeys =
     map js [''constructor'', ''__defineGetter__'', ''__defineSetter__'', ''hasOwnProperty'',
             ''__lookupGetter__'', ''__lookupSetter__'', ''isPrototypeOf'',
             ''propertyIsEnumerable'', ''toString'', ''valueOf'', ''__proto__'',
             ''toLocaleString'']"

text \<open>\<^verbatim>\<open>gameRooms[roomId]\<close> for a \<^verbatim>\<open>roomId\<close> sent by a client.\<close>

datatype slot = Absent | Inherited | Own room

definition lookupRoom :: "(jsstring \<rightharpoonup> room) \<Rightarrow> jsstring \<Rightarrow> slot" where
  "lookupRoom rooms rid =
     (case rooms rid of
        Some r \<Rightarrow> Own r
      | None \<Rightarrow> if rid \<in> set objectPrototypeKeys then Inherited else Absent)"

subsection \<open>The handlers\<close>

definition createRoom ::
  "jsstring \<Rightarrow> jsstring \<Rightarrow> jsstring \<Rightarrow> server \<Rightarrow> js_error + server \<times> effect list" where
  "createRoom sid uname token s =
     (let (rid, rooms1) = createGameRoom token (gameRooms s) in
      case rooms1 rid of
        None \<Rightarrow> Inl TypeError
      | Some r \<Rightarrow>
          let r' = r\<lparr>players := players r @ [\<lparr>id_player = sid, username = uname, score = 0\<rparr>]\<rparr>;
              s' = s\<lparr>gameRooms := rooms1(rid \<mapsto> r'), roomId := (roomId s)(sid \<mapsto> rid)\<rparr>
          in Inr (s', [SocketJoin sid rid,
                       Callback sid (CreateAck rid True),
                       Broadcast rid ''updateRoom'' (Snapshot r')]))"

text \<open>
  \<^verbatim>\<open>joinRoom\<close>. For the name of an inherited member both guards pass (the member is truthy,
  its \<^verbatim>\<open>started\<close> is \<^verbatim>\<open>undefined\<close>); the socket joins the channel and is bound, and then
  \<^verbatim>\<open>gameRooms[roomId].players.push\<close> reads \<^verbatim>\<open>push\<close> of \<^verbatim>\<open>undefined\<close> and throws, before any
  callback.
\<close>

definition joinRoom ::
  "jsstring \<Rightarrow> jsstring \<Rightarrow> jsstring \<Rightarrow> server \<Rightarrow> js_error + server \<times> effect list" where
  "joinRoom sid rid uname s =
     (case lookupRoom (gameRooms s) rid of
        Absent \<Rightarrow> Inr (s, [Callback sid (JoinFailed (js ''Room not found''))])
      | Inherited \<Rightarrow> Inl TypeError
      | Own r \<Rightarrow>
          if started r then Inr (s, [Callback sid (JoinFailed (js ''Game already started''))])
          else
            let r' = r\<lparr>players := players r @ [\<lparr>id_player = sid, username = uname, score = 0\<rparr>]\<rparr>;
                s' = s\<lparr>gameRooms := (gameRooms s)(rid \<mapsto> r'), roomId := (roomId s)(sid \<mapsto> rid)\<rparr>
            in Inr (s', [SocketJoin sid rid,
                         Callback sid (JoinOk r'),
                         Broadcast rid ''updateRoom'' (Snapshot r')]))"

text \<open>
  \<^verbatim>\<open>if (!roomId || !gameRooms[roomId]) return;\<close> with \<^verbatim>\<open>roomId = socket.roomId\<close>. The bound
  identifier is falsy when it is \<^verbatim>\<open>undefined\<close> or the empty string. \<^verbatim>\<open>socket.roomId\<close> is
  assigned in \<^verbatim>\<open>createRoom\<close> (a token) and in \<^verbatim>\<open>joinRoom\<close>, where an inherited name leads to
  the throw that ends the process; so an identifier found bound was a key of the registry
  when it was bound, and it is looked up among the stored keys.
\<close>

definition boundRoom :: "server \<Rightarrow> jsstring \<Rightarrow> (jsstring \<times> room) option" where
  "boundRoom s sid =
     (case roomId s sid of
        None \<Rightarrow> None
      | Some rid \<Rightarrow>
          if rid = [] then None
          else (case gameRooms s rid of None \<Rightarrow> None | Some r \<Rightarrow> Some (rid, r)))"

definition startGame :: "jsstring \<Rightarrow> server \<Rightarrow> server \<times> effect list" where
  "startGame sid s =
     (case boundRoom s sid of
        None \<Rightarrow> (s, [])
      | Some (rid, r) \<Rightarrow>
          let r' = r\<lparr>started := True, letterInPlay := []\<rparr>
          in (s\<lparr>gameRooms := (gameRooms s)(rid \<mapsto> r')\<rparr>,
              [Broadcast rid ''gameStarted'' (Snapshot r')]))"

definition wrongLetterMessage :: "jsstring \<Rightarrow> jsstring" where
  "wrongLetterMessage letter =
     js ''Place name must start with '' @ [0x0027] @ letter @ [0x0027]"

definition submitPlace ::
  "runtime \<Rightarrow> dataset \<Rightarrow> jsstring \<Rightarrow> nat \<Rightarrow> jsstring \<Rightarrow> server
     \<Rightarrow> js_error + server \<times> effect list" where
  "submitPlace rt db sid now placeName0 s =
     (case boundRoom s sid of
        None \<Rightarrow> Inr (s, [])
      | Some (rid, r) \<Rightarrow>
          if \<not> currentPlayerIndex r < length (players r) then Inl TypeError
          else
            let currentPlayer = players r ! currentPlayerIndex r in
            if id_player currentPlayer \<noteq> sid
              then Inr (s, [Emit sid ''error'' (js ''Not your turn'')])
            else
              let placeName = trim placeName0 in
              if \<not> isValidPlace rt db placeName
                then Inr (s, [Emit sid ''error'' (js ''Invalid place name'')])
              else if letterInPlay r \<noteq> []
                      \<and> toLowerCase rt (charAt placeName 0) \<noteq> toLowerCase rt (letterInPlay r)
                then Inr (s, [Emit sid ''error'' (wrongLetterMessage (letterInPlay r))])
              else if list_ex (\<lambda>entry. toLowerCase rt (place entry) = toLowerCase rt placeName)
                        (history r)
                then Inr (s, [Emit sid ''error'' (js ''This place has already been used'')])
              else
                let lastLetter = toUpperCase rt (charAt placeName (int (length placeName) - 1));
                    r' = r\<lparr>letterInPlay := lastLetter,
                           history := history r @
                             [\<lparr>player = username currentPlayer, place = placeName, timestamp = now\<rparr>],
                           players := (players r)[currentPlayerIndex r :=
                             currentPlayer\<lparr>score := score currentPlayer + 1\<rparr>],
                           currentPlayerIndex := (currentPlayerIndex r + 1) mod length (players r)\<rparr>
                in Inr (s\<lparr>gameRooms := (gameRooms s)(rid \<mapsto> r')\<rparr>,
                        [Broadcast rid ''updateGame'' (Snapshot r')]))"

text \<open>\<^verbatim>\<open>players.findIndex(..)\<close>: the first index that satisfies the test, \<open>None\<close> for \<^verbatim>\<open>-1\<close>.\<close>

fun findIndex :: "('a \<Rightarrow> bool) \<Rightarrow> 'a list \<Rightarrow> nat option" where
  "findIndex P [] = None"
| "findIndex P (x # xs) =
     (if P x then Some 0 else map_option Suc (findIndex P xs))"

text \<open>\<^verbatim>\<open>xs.splice(i, 1)\<close>.\<close>

definition splice1 :: "nat \<Rightarrow> 'a list \<Rightarrow> 'a list" where
  "splice1 i xs = take i xs @ drop (Suc i) xs"

definition disconnect :: "jsstring \<Rightarrow> server \<Rightarrow> server \<times> effect list" where
  "disconnect sid s =
     (case boundRoom s sid of
        None \<Rightarrow> (s, [])
      | Some (rid, r) \<Rightarrow>
          (case findIndex (\<lambda>p. id_player p = sid) (players r) of
             None \<Rightarrow> (s, [])
           | Some playerIndex \<Rightarrow>
               let r1 = r\<lparr>players := splice1 playerIndex (players r)\<rparr>;
                   r2 = (if playerIndex \<le> currentPlayerIndex r1 \<and> currentPlayerIndex r1 > 0
                         then r1\<lparr>currentPlayerIndex := currentPlayerIndex r1 - 1\<rparr> else r1)
               in if length (players r2) = 0
                  then (s\<lparr>gameRooms := (gameRooms s)(rid := None)\<rparr>, [])
                  else (s\<lparr>gameRooms := (gameRooms s)(rid \<mapsto> r2)\<rparr>,
                        [Broadcast rid ''playerLeft'' (PlayerLeft sid r2)])))"

subsection \<open>Runs of the server\<close>

datatype event =
  CreateRoom jsstring jsstring jsstring
| JoinRoom jsstring jsstring jsstring
| StartGame jsstring
| SubmitPlace jsstring nat jsstring
| Disconnect jsstring

fun handle :: "runtime \<Rightarrow> dataset \<Rightarrow> event \<Rightarrow> server \<Rightarrow> js_error + server \<times> effect list" where
  "handle rt db (CreateRoom sid uname token) s = createRoom sid uname token s"
| "handle rt db (JoinRoom sid rid uname) s = joinRoom sid rid uname s"
| "handle rt db (StartGame sid) s = Inr (startGame sid s)"
| "handle rt db (SubmitPlace sid now placeName) s = submitPlace rt db sid now placeName s"
| "handle rt db (Disconnect sid) s = Inr (disconnect sid s)"

inductive reachable :: "runtime \<Rightarrow> dataset \<Rightarrow> server \<Rightarrow> bool"
  for rt :: runtime and db :: dataset where
  init: "reachable rt db initial"
| step: "reachable rt db s \<Longrightarrow> handle rt db e s = Inr (s', effs) \<Longrightarrow> reachable rt db s'"

text \<open>The server state after a list of events, as long as no handler throws.\<close>

fun run :: "runtime \<Rightarrow> dataset \<Rightarrow> event list \<Rightarrow> server \<Rightarrow> js_error + server" where
  "run rt db [] s = Inr s"
| "run rt db (e # es) s =
     (case handle rt db e s of Inl err \<Rightarrow> Inl err | Inr (s', effs) \<Rightarrow> run rt db es s')"

text \<open>The tokens of the rooms created in a list of events are prefixes of version-4 UUIDs.\<close>

fun uuidTokens :: "event list \<Rightarrow> bool" where
  "uuidTokens [] = True"
| "uuidTokens (CreateRoom sid uname token # es) = (uuidToken token \<and> uuidTokens es)"
| "uuidTokens (e # es) = uuidTokens es"

subsection \<open>Auxiliary notions for the statements\<close>

text \<open>
  The room that the success path of \<^verbatim>\<open>submitPlace\<close> leaves behind (the assignments after
  the last check), for the trimmed place name \<open>p\<close> and the clock value \<open>now\<close>.
\<close>

definition acceptedRoom :: "runtime \<Rightarrow> room \<Rightarrow> nat \<Rightarrow> jsstring \<Rightarrow> room" where
  "acceptedRoom rt r now p =
     r\<lparr>letterInPlay := toUpperCase rt (charAt p (int (length p) - 1)),
       history := history r @
         [\<lparr>player = username (players r ! currentPlayerIndex r), place = p, timestamp = now\<rparr>],
       players := (players r)[currentPlayerIndex r :=
         (players r ! currentPlayerIndex r)\<lparr>score := score (players r ! currentPlayerIndex r) + 1\<rparr>],
       currentPlayerIndex := (currentPlayerIndex r + 1) mod length (players r)\<rparr>"

text \<open>
  The specification's view of a submission: four named checks in a fixed order, each with
  its verdict (\<open>True\<close> when the check fails); the reported reason is the first failing one.
\<close>

datatype rejection = NotYourTurn | InvalidPlace | WrongLetter | AlreadyUsed

definition spec_checks ::
  "runtime \<Rightarrow> dataset \<Rightarrow> jsstring \<Rightarrow> room \<Rightarrow> jsstring \<Rightarrow> (rejection \<times> bool) list" where
  "spec_checks rt db sid r placeName =
     (let p = trim placeName in
      [(NotYourTurn, id_player (players r ! currentPlayerIndex r) \<noteq> sid),
       (InvalidPlace, \<not> isValidPlace rt db p),
       (WrongLetter, letterInPlay r \<noteq> []
                     \<and> toLowerCase rt (take 1 p) \<noteq> toLowerCase rt (letterInPlay r)),
       (AlreadyUsed, \<exists>e \<in> set (history r). toLowerCase rt (place e) = toLowerCase rt p)])"

definition spec_first_failure ::
  "runtime \<Rightarrow> dataset \<Rightarrow> jsstring \<Rightarrow> room \<Rightarrow> jsstring \<Rightarrow> rejection option" where
  "spec_first_failure rt db sid r placeName =
     map_option fst (find snd (spec_checks rt db sid r placeName))"

text \<open>The text the server sends for each reason.\<close>

fun rejection_message :: "room \<Rightarrow> rejection \<Rightarrow> jsstring" where
  "rejection_message r NotYourTurn = js ''Not your turn''"
| "rejection_message r InvalidPlace = js ''Invalid place name''"
| "rejection_message r WrongLetter = wrongLetterMessage (letterInPlay r)"
| "rejection_message r AlreadyUsed = js ''This place has already been used''"

text \<open>The turn pointer of a room is a valid index, or the room has no players.\<close>

definition validIndex :: "room \<Rightarrow> bool" where
  "validIndex r = (players r = [] \<or> currentPlayerIndex r < length (players r))"

text \<open>Every room of the registry has a player under its turn pointer.\<close>

definition roomsPopulated :: "server \<Rightarrow> bool" where
  "roomsPopulated s = (\<forall>rid r. gameRooms s rid = Some r \<longrightarrow> currentPlayerIndex r < length (players r))"

text \<open>The places of a history, compared as the duplicate check compares them.\<close>

definition placeKeys :: "runtime \<Rightarrow> room \<Rightarrow> jsstring list" where
  "placeKeys rt r = map (\<lambda>entry. toLowerCase rt (place entry)) (history r)"

text \<open>Every identifier stored in the registry or bound to a connection is a UUID token.\<close>

definition tokensOnly :: "server \<Rightarrow> bool" where
  "tokensOnly s =
     ((\<forall>rid r. gameRooms s rid = Some r \<longrightarrow> uuidToken rid)
      \<and> (\<forall>sid rid. roomId s sid = Some rid \<longrightarrow> uuidToken rid))"

subsection \<open>A concrete runtime and a concrete game\<close>

text \<open>
  The case conversions of ECMAScript on the code units below U+0100 (Basic Latin and
  Latin-1 Supplement), taken from the Unicode tables: the letters a to z and U+00E0 to
  U+00FE (without the division sign U+00F7) have their capitals 32 positions below; the micro
  sign U+00B5 becomes U+039C, y with diaeresis U+00FF becomes U+0178, and sharp s U+00DF
  becomes the two letters SS. Other code units are left alone, which is not what a real
  runtime does above U+00FF: this runtime serves the concrete game only.
\<close>

definition latin1Upper :: "code_unit \<Rightarrow> jsstring" where
  "latin1Upper c =
     (if 0x0061 \<le> c \<and> c \<le> 0x007A then [c - 0x0020]
      else if c = 0x00B5 then [0x039C]
      else if c = 0x00DF then [0x0053, 0x0053]
      else if 0x00E0 \<le> c \<and> c \<le> 0x00FE \<and> c \<noteq> 0x00F7 then [c - 0x0020]
      else if c = 0x00FF then [0x0178]
      else [c])"

definition latin1Lower :: "code_unit \<Rightarrow> code_unit" where
  "latin1Lower c =
     (if 0x0041 \<le> c \<and> c \<le> 0x005A then c + 0x0020
      else if 0x00C0 \<le> c \<and> c \<le> 0x00DE \<and> c \<noteq> 0x00D7 then c + 0x0020
      else c)"

definition latin1 :: runtime where
  "latin1 = \<lparr>toLowerCase = map latin1Lower, toUpperCase = (\<lambda>s. concat (map latin1Upper s))\<rparr>"

text \<open>
  A runtime agrees with ECMAScript on the strings of one code unit below U+0100. Every
  conforming runtime does; \<open>latin1\<close> does.
\<close>

definition latin1Conformant :: "runtime \<Rightarrow> bool" where
  "latin1Conformant rt =
     (\<forall>c \<le> 0x00FF. toUpperCase rt [c] = latin1Upper c \<and> toLowerCase rt [c] = [latin1Lower c])"

text \<open>
  A Brazilian state whose name ends in a with acute (U+00E1) and an Austrian town whose
  name ends in sharp s (U+00DF), written with their code units.
\<close>

definition para :: jsstring where
  "para = js ''Par'' @ [0x00E1]"

definition dross :: jsstring where
  "dross = js ''Dro'' @ [0x00DF]"

definition demo_db :: dataset where
  "demo_db = \<lparr>countries = [js ''Argentina'', js ''Albania'', js ''Brazil''], states = [para],
              cities = [js ''New York'', dross]\<rparr>"

definition alice :: player where
  "alice = \<lparr>id_player = js ''s1'', username = js ''alice'', score = 0\<rparr>"

definition bob :: player where
  "bob = \<lparr>id_player = js ''s2'', username = js ''bob'', score = 0\<rparr>"

definition carol :: player where
  "carol = \<lparr>id_player = js ''s3'', username = js ''carol'', score = 0\<rparr>"

definition lobby_room :: room where
  "lobby_room = \<lparr>players = [alice], history = [], currentPlayerIndex = 0,
                 letterInPlay = [], started = False\<rparr>"

text \<open>After \<^verbatim>\<open>createRoom\<close> by connection \<open>s1\<close>.\<close>

definition demo_lobby :: server where
  "demo_lobby = \<lparr>gameRooms = [js ''abc123'' \<mapsto> lobby_room],
                 roomId = [js ''s1'' \<mapsto> js ''abc123'']\<rparr>"

definition midgame_room :: room where
  "midgame_room =
     \<lparr>players = [alice\<lparr>score := 1\<rparr>, bob],
      history = [\<lparr>player = js ''alice'', place = js ''Argentina'', timestamp = 7\<rparr>],
      currentPlayerIndex = 1, letterInPlay = js ''A'', started = True\<rparr>"

text \<open>After \<open>s2\<close> joined, \<open>s1\<close> started the game and played Argentina.\<close>

definition demo_midgame :: server where
  "demo_midgame =
     \<lparr>gameRooms = [js ''abc123'' \<mapsto> midgame_room],
      roomId = [js ''s1'' \<mapsto> js ''abc123'', js ''s2'' \<mapsto> js ''abc123'']\<rparr>"

text \<open>After \<^verbatim>\<open>createRoom\<close> by \<open>s1\<close> and its disconnection: the binding outlives the room.\<close>

definition demo_closed :: server where
  "demo_closed = \<lparr>gameRooms = Map.empty, roomId = [js ''s1'' \<mapsto> js ''abc123'']\<rparr>"

definition trio_room :: room where
  "trio_room =
     \<lparr>players = [alice\<lparr>score := 1\<rparr>, bob\<lparr>score := 1\<rparr>, carol],
      history = [\<lparr>player = js ''alice'', place = js ''Argentina'', timestamp = 7\<rparr>,
                 \<lparr>player = js ''bob'', place = js ''albania'', timestamp = 8\<rparr>],
      currentPlayerIndex = 2, letterInPlay = js ''A'', started = True\<rparr>"

text \<open>Three players after two accepted submissions: the turn is at the last of them.\<close>

definition demo_trio :: server where
  "demo_trio =
     \<lparr>gameRooms = [js ''abc123'' \<mapsto> trio_room],
      roomId = [js ''s1'' \<mapsto> js ''abc123'', js ''s2'' \<mapsto> js ''abc123'',
                js ''s3'' \<mapsto> js ''abc123'']\<rparr>"

text \<open>A submission wrapped in a tab, spaces, a no-break space and a line feed.\<close>

definition padded_new_york :: jsstring where
  "padded_new_york = [0x0009, 0x0020] @ js ''New York'' @ [0x00A0, 0x0020, 0x000A]"

section \<open>Properties\<close>

subsection \<open>Basic facts\<close>

lemma unit_of_char_inj: "inj (\<lambda>c. word_of_nat (of_char c) :: code_unit)"
proof (rule injI)
  fix c d :: char
  assume eq: "(word_of_nat (of_char c) :: code_unit) = word_of_nat (of_char d)"
  have small: "take_bit 16 (of_char e :: nat) = of_char e" for e :: char
  proof (rule take_bit_nat_eq_self)
    have "(of_char e :: nat) < 256" by simp
    also have "\<dots> < 2 ^ 16" by simp
    finally show "(of_char e :: nat) < 2 ^ 16" .
  qed
  from eq have "take_bit 16 (of_char c :: nat) = take_bit 16 (of_char d :: nat)"
    by (simp only: word_of_nat_eq_iff len_bit0 len_of_numeral_defs) simp
  then have "(of_char c :: nat) = of_char d"
    by (simp only: small)
  then show "c = d" by simp
qed

lemma js_inj: "inj js"
  unfolding js_def using unit_of_char_inj by (rule inj_mapI)

lemma js_eq_iff [simp]: "js a = js b \<longleftrightarrow> a = b"
  using js_inj by (auto dest: injD)

lemma js_Nil_iff [simp]: "js a = [] \<longleftrightarrow> a = []" "[] = js a \<longleftrightarrow> a = []"
  by (auto simp: js_def)

lemma length_js: "length (js a) = length a"
  by (simp add: js_def)

lemma charAt_last: "charAt p (int (length p) - 1) = (if p = [] then [] else [last p])"
  by (cases p rule: rev_cases) (simp_all add: charAt_def nth_append)

lemma charAt_first: "charAt p 0 = take 1 p"
  by (cases p) (simp_all add: charAt_def)

text \<open>
  What \<open>trim\<close> returns, said without its definition: the input is the result between two
  runs of white space, and a non-empty result neither starts nor ends with white space.
\<close>

lemma trim_spec:
  "(\<exists>l t. s = l @ trim s @ t \<and> (\<forall>c \<in> set l \<union> set t. isWhiteSpace c))
   \<and> (trim s \<noteq> [] \<longrightarrow> \<not> isWhiteSpace (hd (trim s)) \<and> \<not> isWhiteSpace (last (trim s)))"
proof -
  let ?l = "takeWhile isWhiteSpace s"
  let ?m = "dropWhile isWhiteSpace s"
  let ?t = "rev (takeWhile isWhiteSpace (rev ?m))"
  have m: "?m = trim s @ ?t"
  proof -
    have "rev (takeWhile isWhiteSpace (rev ?m) @ dropWhile isWhiteSpace (rev ?m))
        = rev (dropWhile isWhiteSpace (rev ?m)) @ rev (takeWhile isWhiteSpace (rev ?m))"
      by (rule rev_append)
    moreover have "takeWhile isWhiteSpace (rev ?m) @ dropWhile isWhiteSpace (rev ?m) = rev ?m"
      by (rule takeWhile_dropWhile_id)
    ultimately have "rev (rev ?m)
        = rev (dropWhile isWhiteSpace (rev ?m)) @ rev (takeWhile isWhiteSpace (rev ?m))"
      by (simp only:)
    then show ?thesis by (simp only: rev_rev_ident trim_def)
  qed
  have "s = ?l @ ?m" by simp
  with m have split: "s = ?l @ trim s @ ?t" by simp
  have wl: "\<forall>c \<in> set ?l. isWhiteSpace c"
    by (auto dest: set_takeWhileD)
  have wt: "\<forall>c \<in> set ?t. isWhiteSpace c"
    by (auto dest: set_takeWhileD)
  have ends: "\<not> isWhiteSpace (hd (trim s)) \<and> \<not> isWhiteSpace (last (trim s))" if ne: "trim s \<noteq> []"
  proof -
    from ne have d: "dropWhile isWhiteSpace (rev ?m) \<noteq> []"
      by (simp add: trim_def)
    from ne m have "?m \<noteq> []" by (metis append_is_Nil_conv)
    then have "\<not> isWhiteSpace (hd ?m)" by (rule hd_dropWhile)
    moreover from ne m have "hd ?m = hd (trim s)"
      by (metis hd_append2)
    moreover from d have "\<not> isWhiteSpace (hd (dropWhile isWhiteSpace (rev ?m)))"
      by (rule hd_dropWhile)
    moreover from d have "last (trim s) = hd (dropWhile isWhiteSpace (rev ?m))"
      by (simp add: trim_def last_rev)
    ultimately show ?thesis by simp
  qed
  from split wl wt have "\<exists>l t. s = l @ trim s @ t \<and> (\<forall>c \<in> set l \<union> set t. isWhiteSpace c)"
    by blast
  with ends show ?thesis by blast
qed

lemma boundRoom_SomeI:
  "roomId s sid = Some rid \<Longrightarrow> rid \<noteq> [] \<Longrightarrow> gameRooms s rid = Some r
     \<Longrightarrow> boundRoom s sid = Some (rid, r)"
  by (simp add: boundRoom_def)

lemma boundRoom_SomeD:
  "boundRoom s sid = Some (rid, r)
     \<Longrightarrow> roomId s sid = Some rid \<and> rid \<noteq> [] \<and> gameRooms s rid = Some r"
  by (auto simp: boundRoom_def split: option.splits if_splits)

lemma submitPlace_accept:
  assumes "boundRoom s sid = Some (rid, r)"
    and "currentPlayerIndex r < length (players r)"
    and "id_player (players r ! currentPlayerIndex r) = sid"
    and "isValidPlace rt db (trim pn)"
    and "letterInPlay r = [] \<or> toLowerCase rt (charAt (trim pn) 0) = toLowerCase rt (letterInPlay r)"
    and "\<not> list_ex (\<lambda>entry. toLowerCase rt (place entry) = toLowerCase rt (trim pn)) (history r)"
  shows "submitPlace rt db sid now pn s =
           Inr (s\<lparr>gameRooms := (gameRooms s)(rid \<mapsto> acceptedRoom rt r now (trim pn))\<rparr>,
                [Broadcast rid ''updateGame'' (Snapshot (acceptedRoom rt r now (trim pn)))])"
  using assms by (auto simp: submitPlace_def acceptedRoom_def Let_def)

lemma submitPlace_reject:
  assumes "boundRoom s sid = Some (rid, r)"
    and "currentPlayerIndex r < length (players r)"
  shows "id_player (players r ! currentPlayerIndex r) \<noteq> sid
           \<Longrightarrow> submitPlace rt db sid now pn s = Inr (s, [Emit sid ''error'' (js ''Not your turn'')])"
    and "id_player (players r ! currentPlayerIndex r) = sid \<Longrightarrow> \<not> isValidPlace rt db (trim pn)
           \<Longrightarrow> submitPlace rt db sid now pn s = Inr (s, [Emit sid ''error'' (js ''Invalid place name'')])"
    and "id_player (players r ! currentPlayerIndex r) = sid \<Longrightarrow> isValidPlace rt db (trim pn)
           \<Longrightarrow> letterInPlay r \<noteq> []
           \<Longrightarrow> toLowerCase rt (charAt (trim pn) 0) \<noteq> toLowerCase rt (letterInPlay r)
           \<Longrightarrow> submitPlace rt db sid now pn s =
                 Inr (s, [Emit sid ''error'' (wrongLetterMessage (letterInPlay r))])"
    and "id_player (players r ! currentPlayerIndex r) = sid \<Longrightarrow> isValidPlace rt db (trim pn)
           \<Longrightarrow> letterInPlay r = [] \<or> toLowerCase rt (charAt (trim pn) 0) = toLowerCase rt (letterInPlay r)
           \<Longrightarrow> list_ex (\<lambda>entry. toLowerCase rt (place entry) = toLowerCase rt (trim pn)) (history r)
           \<Longrightarrow> submitPlace rt db sid now pn s =
                 Inr (s, [Emit sid ''error'' (js ''This place has already been used'')])"
  using assms by (auto simp: submitPlace_def Let_def)

text \<open>Evaluations on the concrete game.\<close>

lemma demo_trim:
  "trim (js '' albania  '') = js ''albania''" "trim (js '' Argentina '') = js ''Argentina''"
  "trim (js ''Argentina'') = js ''Argentina''" "trim (js ''argentina'') = js ''argentina''"
  "trim (js ''Brazil'') = js ''Brazil''" "trim (js ''Atlantis'') = js ''Atlantis''"
  "trim (js '' ALBANIA '') = js ''ALBANIA''" "trim padded_new_york = js ''New York''"
  "trim para = para" "trim dross = dross"
  by code_simp+

lemma demo_valid:
  "isValidPlace latin1 demo_db (js ''albania'')" "isValidPlace latin1 demo_db (js ''Argentina'')"
  "isValidPlace latin1 demo_db (js ''argentina'')" "isValidPlace latin1 demo_db (js ''Brazil'')"
  "\<not> isValidPlace latin1 demo_db (js ''Atlantis'')"
  "isValidPlace latin1 demo_db (js ''New York'')"
  "isValidPlace latin1 demo_db para" "isValidPlace latin1 demo_db dross"
  by code_simp+

lemma demo_lower:
  "toLowerCase latin1 (js ''A'') = js ''a''"
  "toLowerCase latin1 (js ''Argentina'') = js ''argentina''"
  "toLowerCase latin1 (js ''argentina'') = js ''argentina''"
  "toLowerCase latin1 (js ''albania'') = js ''albania''"
  "toLowerCase latin1 (js ''ALBANIA'') = js ''albania''"
  "toLowerCase latin1 (js ''Brazil'') = js ''brazil''"
  "toLowerCase latin1 (js ''New York'') = js ''new york''"
  by code_simp+

lemma demo_first:
  "toLowerCase latin1 (charAt (js ''albania'') 0) = js ''a''"
  "toLowerCase latin1 (charAt (js ''ALBANIA'') 0) = js ''a''"
  "toLowerCase latin1 (charAt (js ''argentina'') 0) = js ''a''"
  "toLowerCase latin1 (charAt (js ''Brazil'') 0) = js ''b''"
  "toLowerCase latin1 (take 1 (js ''Brazil'')) = js ''b''"
  by code_simp+

lemma demo_letter:
  "toUpperCase latin1 (charAt (js ''Argentina'') (int (length (js ''Argentina'')) - 1)) = js ''A''"
  "toUpperCase latin1 (charAt (js ''albania'') (int (length (js ''albania'')) - 1)) = js ''A''"
  by code_simp+

lemma demo_last:
  "js ''albania'' \<noteq> []" "last (js ''albania'') = 0x0061" "toUpperCase latin1 [0x0061] = js ''A''"
  "js ''New York'' \<noteq> []" "last (js ''New York'') = 0x006B" "toUpperCase latin1 [0x006B] = js ''K''"
  "js ''Brazil'' \<noteq> []" "last (js ''Brazil'') = 0x006C" "toUpperCase latin1 [0x006C] = js ''L''"
  "para \<noteq> []" "last para = 0x00E1" "toUpperCase latin1 [0x00E1] = [0x00C1]"
  "dross \<noteq> []" "last dross = 0x00DF" "toUpperCase latin1 [0x00DF] = js ''SS''"
  by code_simp+

lemmas handler_defs = createRoom_def createGameRoom_def joinRoom_def lookupRoom_def startGame_def
  submitPlace_def disconnect_def boundRoom_def splice1_def Let_def

lemma run_demo_lobby:
  "run latin1 demo_db [CreateRoom (js ''s1'') (js ''alice'') (js ''abc123'')] initial = Inr demo_lobby"
  by (simp add: handler_defs initial_def demo_lobby_def lobby_room_def alice_def)

lemma run_demo_midgame:
  "run latin1 demo_db
     [CreateRoom (js ''s1'') (js ''alice'') (js ''abc123''),
      JoinRoom (js ''s2'') (js ''abc123'') (js ''bob''),
      StartGame (js ''s1''), SubmitPlace (js ''s1'') 7 (js '' Argentina '')] initial
   = Inr demo_midgame"
  by (simp add: handler_defs initial_def demo_midgame_def midgame_room_def alice_def bob_def
      demo_trim demo_valid demo_letter)

lemma run_demo_closed:
  "run latin1 demo_db
     [CreateRoom (js ''s1'') (js ''alice'') (js ''abc123''), Disconnect (js ''s1'')] initial
   = Inr demo_closed"
  by (simp add: handler_defs initial_def demo_closed_def)

lemma run_demo_trio:
  "run latin1 demo_db
     [CreateRoom (js ''s1'') (js ''alice'') (js ''abc123''),
      JoinRoom (js ''s2'') (js ''abc123'') (js ''bob''),
      JoinRoom (js ''s3'') (js ''abc123'') (js ''carol''), StartGame (js ''s2''),
      SubmitPlace (js ''s1'') 7 (js ''Argentina''), SubmitPlace (js ''s2'') 8 (js '' albania  '')]
     initial = Inr demo_trio"
  by (simp add: handler_defs initial_def demo_trio_def trio_room_def alice_def bob_def carol_def
      demo_trim demo_valid demo_letter demo_first demo_lower numeral_2_eq_2)

lemma run_reachable_from:
  "reachable rt db s \<Longrightarrow> run rt db es s = Inr s' \<Longrightarrow> reachable rt db s'"
proof (induction es arbitrary: s)
  case Nil
  then show ?case by simp
next
  case (Cons e es)
  then show ?case
    by (auto split: sum.splits intro: reachable.step)
qed

lemma run_reachable: "run rt db es initial = Inr s \<Longrightarrow> reachable rt db s"
  using run_reachable_from [OF reachable.init] .

lemma latin1_conformant: "latin1Conformant latin1"
  by (simp add: latin1Conformant_def latin1_def)

lemma midgame_facts:
  "roomId demo_midgame (js ''s2'') = Some (js ''abc123'')"
  "roomId demo_midgame (js ''s1'') = Some (js ''abc123'')"
  "gameRooms demo_midgame (js ''abc123'') = Some midgame_room"
  "currentPlayerIndex midgame_room < length (players midgame_room)"
  "id_player (players midgame_room ! currentPlayerIndex midgame_room) = js ''s2''"
  "letterInPlay midgame_room = js ''A''"
  "history midgame_room = [\<lparr>player = js ''alice'', place = js ''Argentina'', timestamp = 7\<rparr>]"
  "players midgame_room = [alice\<lparr>score := 1\<rparr>, bob]"
  "currentPlayerIndex midgame_room = 1"
  by (simp_all add: demo_midgame_def midgame_room_def alice_def bob_def)

lemma lobby_facts:
  "roomId demo_lobby (js ''s1'') = Some (js ''abc123'')"
  "gameRooms demo_lobby (js ''abc123'') = Some lobby_room"
  "currentPlayerIndex lobby_room < length (players lobby_room)"
  "id_player (players lobby_room ! currentPlayerIndex lobby_room) = js ''s1''"
  "letterInPlay lobby_room = []"
  "history lobby_room = []"
  "players lobby_room = [alice]"
  "currentPlayerIndex lobby_room = 0"
  "\<not> started lobby_room"
  by (simp_all add: demo_lobby_def lobby_room_def alice_def)

text \<open>
  C1. A submission from the current player that passes all checks sets \<open>letterInPlay\<close> to
  the uppercased last character of the trimmed place name (the runtime's \<^verbatim>\<open>toUpperCase\<close> of
  the last code unit; for a code unit below U+0100 and a conforming runtime that is the
  capital of the Unicode table, one letter or the two letters SS), appends one history
  entry (the acting player's username, the trimmed place, the timestamp), adds exactly 1 to
  the acting player's score and to nobody else's, and moves \<open>currentPlayerIndex\<close> to
  \<open>(currentPlayerIndex + 1) mod length players\<close>; the new room is broadcast as \<^verbatim>\<open>updateGame\<close>.
  The trimmed name is the submitted name without the white space at its two ends.
\<close>

theorem submit_accepted_updates:
  assumes "roomId s sid = Some rid" and "rid \<noteq> []" and "gameRooms s rid = Some r"
    and "currentPlayerIndex r < length (players r)"
    and "id_player (players r ! currentPlayerIndex r) = sid"
    and "isValidPlace rt db (trim pn)"
    and "letterInPlay r = [] \<or> toLowerCase rt (charAt (trim pn) 0) = toLowerCase rt (letterInPlay r)"
    and "\<forall>e \<in> set (history r). toLowerCase rt (place e) \<noteq> toLowerCase rt (trim pn)"
  shows "\<exists>r'. submitPlace rt db sid now pn s =
                 Inr (s\<lparr>gameRooms := (gameRooms s)(rid \<mapsto> r')\<rparr>,
                      [Broadcast rid ''updateGame'' (Snapshot r')])
            \<and> letterInPlay r' = toUpperCase rt (if trim pn = [] then [] else [last (trim pn)])
            \<and> (latin1Conformant rt \<and> trim pn \<noteq> [] \<and> last (trim pn) \<le> 0x00FF
                 \<longrightarrow> letterInPlay r' = latin1Upper (last (trim pn)))
            \<and> history r' = history r @
                 [\<lparr>player = username (players r ! currentPlayerIndex r),
                   place = trim pn, timestamp = now\<rparr>]
            \<and> (\<exists>l t. pn = l @ trim pn @ t \<and> (\<forall>c \<in> set l \<union> set t. isWhiteSpace c))
            \<and> (trim pn \<noteq> []
                 \<longrightarrow> \<not> isWhiteSpace (hd (trim pn)) \<and> \<not> isWhiteSpace (last (trim pn)))
            \<and> length (players r') = length (players r)
            \<and> (\<forall>j < length (players r). players r' ! j =
                  (if j = currentPlayerIndex r
                   then (players r ! j)\<lparr>score := score (players r ! j) + 1\<rparr>
                   else players r ! j))
            \<and> currentPlayerIndex r' = (currentPlayerIndex r + 1) mod length (players r)
            \<and> started r' = started r"
proof -
  let ?r' = "acceptedRoom rt r now (trim pn)"
  have b: "boundRoom s sid = Some (rid, r)"
    using assms(1-3) by (rule boundRoom_SomeI)
  have nodup: "\<not> list_ex (\<lambda>entry. toLowerCase rt (place entry) = toLowerCase rt (trim pn)) (history r)"
    using assms(8) by (simp add: list_ex_iff)
  have run: "submitPlace rt db sid now pn s =
           Inr (s\<lparr>gameRooms := (gameRooms s)(rid \<mapsto> ?r')\<rparr>,
                [Broadcast rid ''updateGame'' (Snapshot ?r')])"
    by (rule submitPlace_accept [OF b assms(4-7) nodup])
  have letter: "letterInPlay ?r' = toUpperCase rt (if trim pn = [] then [] else [last (trim pn)])"
    by (simp add: acceptedRoom_def charAt_last)
  have table: "letterInPlay ?r' = latin1Upper (last (trim pn))"
    if "latin1Conformant rt \<and> trim pn \<noteq> [] \<and> last (trim pn) \<le> 0x00FF"
    using that letter by (simp add: latin1Conformant_def)
  have hist: "history ?r' = history r @
                 [\<lparr>player = username (players r ! currentPlayerIndex r),
                   place = trim pn, timestamp = now\<rparr>]"
    by (simp add: acceptedRoom_def)
  note trimmed = trim_spec [of pn]
  have len: "length (players ?r') = length (players r)"
    by (simp add: acceptedRoom_def)
  have pls: "\<forall>j < length (players r). players ?r' ! j =
                  (if j = currentPlayerIndex r
                   then (players r ! j)\<lparr>score := score (players r ! j) + 1\<rparr>
                   else players r ! j)"
    by (simp add: acceptedRoom_def nth_list_update)
  have idx: "currentPlayerIndex ?r' = (currentPlayerIndex r + 1) mod length (players r)"
    by (simp add: acceptedRoom_def)
  have st: "started ?r' = started r"
    by (simp add: acceptedRoom_def)
  show ?thesis
    apply (rule exI [of _ ?r'])
    apply (intro conjI impI)
    subgoal using run .
    subgoal using letter .
    subgoal using table by blast
    subgoal using hist .
    subgoal using trimmed by blast
    subgoal using trimmed by blast
    subgoal using trimmed by blast
    subgoal using len .
    subgoal using pls .
    subgoal using idx .
    subgoal using st .
    done
qed

text \<open>
  The concrete game: bob's padded lower-case albania after Argentina; in the lobby room,
  New York wrapped in white space (the inner space stays, the letter is K), the state
  \<open>para\<close> that ends in U+00E1 (the letter is U+00C1) and the town \<open>dross\<close> that ends in
  U+00DF (the letter is SS).
\<close>

theorem submit_accepted_updates_witness:
  "(\<exists>r'. submitPlace latin1 demo_db (js ''s2'') 8 (js '' albania  '') demo_midgame =
           Inr (demo_midgame\<lparr>gameRooms := (gameRooms demo_midgame)(js ''abc123'' \<mapsto> r')\<rparr>,
                [Broadcast (js ''abc123'') ''updateGame'' (Snapshot r')])
      \<and> letterInPlay r' = js ''A''
      \<and> history r' = [\<lparr>player = js ''alice'', place = js ''Argentina'', timestamp = 7\<rparr>,
                      \<lparr>player = js ''bob'', place = js ''albania'', timestamp = 8\<rparr>]
      \<and> players r' = [alice\<lparr>score := 1\<rparr>, bob\<lparr>score := 1\<rparr>]
      \<and> currentPlayerIndex r' = 0
      \<and> started r')
   \<and> (\<exists>r'. submitPlace latin1 demo_db (js ''s1'') 7 padded_new_york demo_lobby =
           Inr (demo_lobby\<lparr>gameRooms := (gameRooms demo_lobby)(js ''abc123'' \<mapsto> r')\<rparr>,
                [Broadcast (js ''abc123'') ''updateGame'' (Snapshot r')])
      \<and> letterInPlay r' = js ''K''
      \<and> history r' = [\<lparr>player = js ''alice'', place = js ''New York'', timestamp = 7\<rparr>])
   \<and> (\<exists>r'. submitPlace latin1 demo_db (js ''s1'') 7 para demo_lobby =
           Inr (demo_lobby\<lparr>gameRooms := (gameRooms demo_lobby)(js ''abc123'' \<mapsto> r')\<rparr>,
                [Broadcast (js ''abc123'') ''updateGame'' (Snapshot r')])
      \<and> letterInPlay r' = [0x00C1]
      \<and> history r' = [\<lparr>player = js ''alice'', place = js ''Par'' @ [0x00E1], timestamp = 7\<rparr>])
   \<and> (\<exists>r'. submitPlace latin1 demo_db (js ''s1'') 7 dross demo_lobby =
           Inr (demo_lobby\<lparr>gameRooms := (gameRooms demo_lobby)(js ''abc123'' \<mapsto> r')\<rparr>,
                [Broadcast (js ''abc123'') ''updateGame'' (Snapshot r')])
      \<and> letterInPlay r' = js ''SS''
      \<and> history r' = [\<lparr>player = js ''alice'', place = js ''Dro'' @ [0x00DF], timestamp = 7\<rparr>])"
proof -
  have ne: "js ''abc123'' \<noteq> []" by simp
  have part1: "\<exists>r'. submitPlace latin1 demo_db (js ''s2'') 8 (js '' albania  '') demo_midgame =
           Inr (demo_midgame\<lparr>gameRooms := (gameRooms demo_midgame)(js ''abc123'' \<mapsto> r')\<rparr>,
                [Broadcast (js ''abc123'') ''updateGame'' (Snapshot r')])
      \<and> letterInPlay r' = js ''A''
      \<and> history r' = [\<lparr>player = js ''alice'', place = js ''Argentina'', timestamp = 7\<rparr>,
                      \<lparr>player = js ''bob'', place = js ''albania'', timestamp = 8\<rparr>]
      \<and> players r' = [alice\<lparr>score := 1\<rparr>, bob\<lparr>score := 1\<rparr>]
      \<and> currentPlayerIndex r' = 0
      \<and> started r'"
  proof -
    have h6: "isValidPlace latin1 demo_db (trim (js '' albania  ''))"
      by (simp add: demo_trim demo_valid)
    have h7: "letterInPlay midgame_room = []
        \<or> toLowerCase latin1 (charAt (trim (js '' albania  '')) 0)
            = toLowerCase latin1 (letterInPlay midgame_room)"
      by (simp add: demo_trim midgame_facts demo_first demo_lower)
    have h8: "\<forall>e \<in> set (history midgame_room).
        toLowerCase latin1 (place e) \<noteq> toLowerCase latin1 (trim (js '' albania  ''))"
      by (simp add: demo_trim midgame_facts demo_lower)
    obtain r' where r': "submitPlace latin1 demo_db (js ''s2'') 8 (js '' albania  '') demo_midgame =
          Inr (demo_midgame\<lparr>gameRooms := (gameRooms demo_midgame)(js ''abc123'' \<mapsto> r')\<rparr>,
               [Broadcast (js ''abc123'') ''updateGame'' (Snapshot r')])"
        and l: "letterInPlay r' = toUpperCase latin1
                  (if trim (js '' albania  '') = [] then [] else [last (trim (js '' albania  ''))])"
        and h: "history r' = history midgame_room @
                   [\<lparr>player = username (players midgame_room ! currentPlayerIndex midgame_room),
                     place = trim (js '' albania  ''), timestamp = 8\<rparr>]"
        and n: "length (players r') = length (players midgame_room)"
        and p: "\<forall>j < length (players midgame_room). players r' ! j =
                    (if j = currentPlayerIndex midgame_room
                     then (players midgame_room ! j)\<lparr>score := score (players midgame_room ! j) + 1\<rparr>
                     else players midgame_room ! j)"
        and c: "currentPlayerIndex r' =
                  (currentPlayerIndex midgame_room + 1) mod length (players midgame_room)"
        and st: "started r' = started midgame_room"
      using submit_accepted_updates [OF midgame_facts(1) ne midgame_facts(3) midgame_facts(4)
          midgame_facts(5) h6 h7 h8, where now = 8]
      by blast
    have l': "letterInPlay r' = js ''A''"
      using l by (simp add: demo_trim demo_last)
    have h': "history r' = [\<lparr>player = js ''alice'', place = js ''Argentina'', timestamp = 7\<rparr>,
                        \<lparr>player = js ''bob'', place = js ''albania'', timestamp = 8\<rparr>]"
      using h by (simp add: demo_trim midgame_facts bob_def)
    have p0: "players r' ! 0 = alice\<lparr>score := 1\<rparr>" and p1: "players r' ! 1 = bob\<lparr>score := 1\<rparr>"
      using p by (simp_all add: midgame_facts bob_def)
    have n': "length (players r') = 2" using n by (simp add: midgame_facts)
    have p': "players r' = [alice\<lparr>score := 1\<rparr>, bob\<lparr>score := 1\<rparr>]"
      using n' p0 p1 by (intro nth_equalityI) (auto simp: less_Suc_eq numeral_2_eq_2)
    have c': "currentPlayerIndex r' = 0" using c by (simp add: midgame_facts)
    have st': "started r'" using st by (simp add: midgame_room_def)
    from r' l' h' p' c' st' show ?thesis by blast
  qed
  have lobby: "\<exists>r'. submitPlace latin1 demo_db (js ''s1'') 7 pn demo_lobby =
           Inr (demo_lobby\<lparr>gameRooms := (gameRooms demo_lobby)(js ''abc123'' \<mapsto> r')\<rparr>,
                [Broadcast (js ''abc123'') ''updateGame'' (Snapshot r')])
      \<and> letterInPlay r' = toUpperCase latin1 [last (trim pn)]
      \<and> history r' = [\<lparr>player = js ''alice'', place = trim pn, timestamp = 7\<rparr>]"
    if v: "isValidPlace latin1 demo_db (trim pn)" and n: "trim pn \<noteq> []" for pn
  proof -
    have l: "letterInPlay lobby_room = []
        \<or> toLowerCase latin1 (charAt (trim pn) 0) = toLowerCase latin1 (letterInPlay lobby_room)"
      by (simp add: lobby_facts)
    have d: "\<forall>e \<in> set (history lobby_room).
        toLowerCase latin1 (place e) \<noteq> toLowerCase latin1 (trim pn)"
      by (simp add: lobby_facts)
    show ?thesis
      using submit_accepted_updates [OF lobby_facts(1) ne lobby_facts(2) lobby_facts(3)
          lobby_facts(4) v l d, where now = 7] n
      by (auto simp: lobby_facts alice_def)
  qed
  have part2: "\<exists>r'. submitPlace latin1 demo_db (js ''s1'') 7 padded_new_york demo_lobby =
           Inr (demo_lobby\<lparr>gameRooms := (gameRooms demo_lobby)(js ''abc123'' \<mapsto> r')\<rparr>,
                [Broadcast (js ''abc123'') ''updateGame'' (Snapshot r')])
      \<and> letterInPlay r' = js ''K''
      \<and> history r' = [\<lparr>player = js ''alice'', place = js ''New York'', timestamp = 7\<rparr>]"
    using lobby [of padded_new_york] by (simp add: demo_trim demo_valid demo_last)
  have part3: "\<exists>r'. submitPlace latin1 demo_db (js ''s1'') 7 para demo_lobby =
           Inr (demo_lobby\<lparr>gameRooms := (gameRooms demo_lobby)(js ''abc123'' \<mapsto> r')\<rparr>,
                [Broadcast (js ''abc123'') ''updateGame'' (Snapshot r')])
      \<and> letterInPlay r' = [0x00C1]
      \<and> history r' = [\<lparr>player = js ''alice'', place = js ''Par'' @ [0x00E1], timestamp = 7\<rparr>]"
    using lobby [of para] by (simp add: demo_trim demo_valid demo_last) (simp add: para_def)
  have part4: "\<exists>r'. submitPlace latin1 demo_db (js ''s1'') 7 dross demo_lobby =
           Inr (demo_lobby\<lparr>gameRooms := (gameRooms demo_lobby)(js ''abc123'' \<mapsto> r')\<rparr>,
                [Broadcast (js ''abc123'') ''updateGame'' (Snapshot r')])
      \<and> letterInPlay r' = js ''SS''
      \<and> history r' = [\<lparr>player = js ''alice'', place = js ''Dro'' @ [0x00DF], timestamp = 7\<rparr>]"
    using lobby [of dross] by (simp add: demo_trim demo_valid demo_last) (simp add: dross_def)
  from part1 part2 part3 part4 show ?thesis by blast
qed

lemma wrongLetterMessage_distinct:
  "wrongLetterMessage l \<noteq> js ''Not your turn''"
  "wrongLetterMessage l \<noteq> js ''Invalid place name''"
  "wrongLetterMessage l \<noteq> js ''This place has already been used''"
  "js ''Not your turn'' \<noteq> wrongLetterMessage l"
  "js ''Invalid place name'' \<noteq> wrongLetterMessage l"
  "js ''This place has already been used'' \<noteq> wrongLetterMessage l"
  by (simp_all add: wrongLetterMessage_def js_def)

text \<open>
  C2. A rejected submission (not the sender's turn, invalid place, wrong first letter, or
  place already used) leaves the whole server state, and so the room with its players,
  scores, history, turn pointer, letter and started flag, as it was; the only effect is one
  \<^verbatim>\<open>error\<close> event to the submitting connection, and nothing is broadcast.
\<close>

theorem submit_rejected_pure:
  assumes "roomId s sid = Some rid" and "rid \<noteq> []" and "gameRooms s rid = Some r"
    and "currentPlayerIndex r < length (players r)"
    and "id_player (players r ! currentPlayerIndex r) \<noteq> sid
         \<or> \<not> isValidPlace rt db (trim pn)
         \<or> (letterInPlay r \<noteq> []
              \<and> toLowerCase rt (charAt (trim pn) 0) \<noteq> toLowerCase rt (letterInPlay r))
         \<or> (\<exists>e \<in> set (history r). toLowerCase rt (place e) = toLowerCase rt (trim pn))"
  shows "\<exists>m. submitPlace rt db sid now pn s = Inr (s, [Emit sid ''error'' m])
            \<and> m \<in> {(js ''Not your turn''), (js ''Invalid place name''),
                     wrongLetterMessage (letterInPlay r), (js ''This place has already been used'')}"
proof -
  have b: "boundRoom s sid = Some (rid, r)"
    using assms(1-3) by (rule boundRoom_SomeI)
  note rej = submitPlace_reject [OF b assms(4), where rt = rt and db = db and now = now and pn = pn]
  let ?turn = "id_player (players r ! currentPlayerIndex r) = sid"
  let ?valid = "isValidPlace rt db (trim pn)"
  let ?letter = "letterInPlay r = [] \<or> toLowerCase rt (charAt (trim pn) 0) = toLowerCase rt (letterInPlay r)"
  let ?dup = "list_ex (\<lambda>entry. toLowerCase rt (place entry) = toLowerCase rt (trim pn)) (history r)"
  consider (turn) "\<not> ?turn" | (invalid) "?turn" "\<not> ?valid" | (letter) "?turn" "?valid" "\<not> ?letter"
    | (dup) "?turn" "?valid" "?letter" "?dup"
    using assms(5) by (auto simp: list_ex_iff)
  then show ?thesis
  proof cases
    case turn
    then show ?thesis using rej(1) by simp
  next
    case invalid
    then show ?thesis using rej(2) by simp
  next
    case letter
    then show ?thesis using rej(3) by simp
  next
    case dup
    then show ?thesis using rej(4) by simp
  qed
qed

theorem submit_rejected_pure_witness:
  "(\<exists>m. submitPlace latin1 demo_db (js ''s1'') 9 (js ''Albania'') demo_midgame = Inr (demo_midgame, [Emit (js ''s1'') ''error'' m]))
   \<and> (\<exists>m. submitPlace latin1 demo_db (js ''s2'') 9 (js ''Atlantis'') demo_midgame = Inr (demo_midgame, [Emit (js ''s2'') ''error'' m]))
   \<and> (\<exists>m. submitPlace latin1 demo_db (js ''s2'') 9 (js ''Brazil'') demo_midgame = Inr (demo_midgame, [Emit (js ''s2'') ''error'' m]))
   \<and> (\<exists>m. submitPlace latin1 demo_db (js ''s2'') 9 (js ''argentina'') demo_midgame = Inr (demo_midgame, [Emit (js ''s2'') ''error'' m]))"
proof -
  have r: "gameRooms demo_midgame (js ''abc123'') = Some midgame_room" by (rule midgame_facts)
  have i: "currentPlayerIndex midgame_room < length (players midgame_room)" by (rule midgame_facts)
  have ne: "js ''abc123'' \<noteq> []" by simp
  have c1: "id_player (players midgame_room ! currentPlayerIndex midgame_room) \<noteq> js ''s1''"
    by (simp add: midgame_facts bob_def)
  have c2: "\<not> isValidPlace latin1 demo_db (trim (js ''Atlantis''))"
    by (simp add: demo_trim demo_valid)
  have c3: "letterInPlay midgame_room \<noteq> []
      \<and> toLowerCase latin1 (charAt (trim (js ''Brazil'')) 0) \<noteq> toLowerCase latin1 (letterInPlay midgame_room)"
    by (simp add: demo_trim midgame_facts demo_first demo_lower)
  have c4: "\<exists>e \<in> set (history midgame_room). toLowerCase latin1 (place e) = toLowerCase latin1 (trim (js ''argentina''))"
    by (simp add: demo_trim midgame_facts demo_lower)
  show ?thesis
    using submit_rejected_pure [OF midgame_facts(2) ne r i, where rt = latin1 and db = demo_db and pn = "js ''Albania''" and now = 9]
      submit_rejected_pure [OF midgame_facts(1) ne r i, where rt = latin1 and db = demo_db and pn = "js ''Atlantis''" and now = 9]
      submit_rejected_pure [OF midgame_facts(1) ne r i, where rt = latin1 and db = demo_db and pn = "js ''Brazil''" and now = 9]
      submit_rejected_pure [OF midgame_facts(1) ne r i, where rt = latin1 and db = demo_db and pn = "js ''argentina''" and now = 9]
      c1 c2 c3 c4
    by blast
qed

text \<open>
  C3. The checks of a submission run in the order not-your-turn, invalid place (on the
  trimmed name), wrong letter (only with a letter in play, first character compared without
  case), already used (compared without case against every history entry). The first check
  that fails, and no other, decides the one message sent; when none fails the submission is
  accepted and broadcast. The four messages are pairwise different.
\<close>

theorem submit_check_order:
  assumes "roomId s sid = Some rid" and "rid \<noteq> []" and "gameRooms s rid = Some r"
    and "currentPlayerIndex r < length (players r)"
  shows "(case spec_first_failure rt db sid r pn of
            Some e \<Rightarrow> submitPlace rt db sid now pn s = Inr (s, [Emit sid ''error'' (rejection_message r e)])
          | None \<Rightarrow> (\<exists>r'. submitPlace rt db sid now pn s =
                        Inr (s\<lparr>gameRooms := (gameRooms s)(rid \<mapsto> r')\<rparr>,
                             [Broadcast rid ''updateGame'' (Snapshot r')])))
         \<and> inj (rejection_message r)"
proof -
  have b: "boundRoom s sid = Some (rid, r)"
    using assms(1-3) by (rule boundRoom_SomeI)
  note rej = submitPlace_reject [OF b assms(4), where rt = rt and db = db and now = now and pn = pn]
  note acc = submitPlace_accept [OF b assms(4), where rt = rt and db = db and now = now and pn = pn]
  let ?turn = "id_player (players r ! currentPlayerIndex r) = sid"
  let ?valid = "isValidPlace rt db (trim pn)"
  let ?letter = "letterInPlay r = [] \<or> toLowerCase rt (charAt (trim pn) 0) = toLowerCase rt (letterInPlay r)"
  let ?dup = "list_ex (\<lambda>entry. toLowerCase rt (place entry) = toLowerCase rt (trim pn)) (history r)"
  have checks: "spec_checks rt db sid r pn =
      [(NotYourTurn, \<not> ?turn), (InvalidPlace, \<not> ?valid), (WrongLetter, \<not> ?letter),
       (AlreadyUsed, ?dup)]"
    by (simp add: spec_checks_def Let_def charAt_first toLowerCase_def list_ex_iff)
  let ?goal = "case spec_first_failure rt db sid r pn of
            Some e \<Rightarrow> submitPlace rt db sid now pn s = Inr (s, [Emit sid ''error'' (rejection_message r e)])
          | None \<Rightarrow> (\<exists>r'. submitPlace rt db sid now pn s =
                        Inr (s\<lparr>gameRooms := (gameRooms s)(rid \<mapsto> r')\<rparr>,
                             [Broadcast rid ''updateGame'' (Snapshot r')]))"
  consider (turn) "\<not> ?turn" | (invalid) "?turn" "\<not> ?valid" | (letter) "?turn" "?valid" "\<not> ?letter"
    | (dup) "?turn" "?valid" "?letter" "?dup" | (ok) "?turn" "?valid" "?letter" "\<not> ?dup"
    by blast
  then have first: ?goal
  proof cases
    case turn
    then have "spec_first_failure rt db sid r pn = Some NotYourTurn"
      unfolding spec_first_failure_def checks by simp
    then show ?thesis using rej(1) [OF turn] by simp
  next
    case invalid
    then have "spec_first_failure rt db sid r pn = Some InvalidPlace"
      unfolding spec_first_failure_def checks by simp
    then show ?thesis using rej(2) [OF invalid] by simp
  next
    case letter
    then have "spec_first_failure rt db sid r pn = Some WrongLetter"
      unfolding spec_first_failure_def checks by simp
    then show ?thesis using rej(3) letter by simp
  next
    case dup
    then have "spec_first_failure rt db sid r pn = Some AlreadyUsed"
      unfolding spec_first_failure_def checks by simp
    then show ?thesis using rej(4) [OF dup] by simp
  next
    case ok
    then have "spec_first_failure rt db sid r pn = None"
      unfolding spec_first_failure_def checks by simp
    then show ?thesis using acc [OF ok] by auto
  qed
  have "rejection_message r a = rejection_message r b \<Longrightarrow> a = b" for a b
    by (cases a; cases b) (simp_all add: wrongLetterMessage_distinct)
  then have "inj (rejection_message r)" by (rule injI)
  with first show ?thesis ..
qed

lemma demo_first_failure:
  "spec_first_failure latin1 demo_db (js ''s1'') midgame_room (js ''Atlantis'') = Some NotYourTurn"
  "spec_first_failure latin1 demo_db (js ''s2'') midgame_room (js ''Atlantis'') = Some InvalidPlace"
  "spec_first_failure latin1 demo_db (js ''s2'') midgame_room (js ''Brazil'') = Some WrongLetter"
  "spec_first_failure latin1 demo_db (js ''s2'') midgame_room (js ''argentina'') = Some AlreadyUsed"
  "spec_first_failure latin1 demo_db (js ''s2'') midgame_room (js '' albania  '') = None"
  by code_simp+

theorem submit_check_order_witness:
  "submitPlace latin1 demo_db (js ''s1'') 9 (js ''Atlantis'') demo_midgame
     = Inr (demo_midgame, [Emit (js ''s1'') ''error'' (js ''Not your turn'')])
   \<and> submitPlace latin1 demo_db (js ''s2'') 9 (js ''Atlantis'') demo_midgame
     = Inr (demo_midgame, [Emit (js ''s2'') ''error'' (js ''Invalid place name'')])
   \<and> submitPlace latin1 demo_db (js ''s2'') 9 (js ''Brazil'') demo_midgame
     = Inr (demo_midgame, [Emit (js ''s2'') ''error'' (wrongLetterMessage (js ''A''))])
   \<and> submitPlace latin1 demo_db (js ''s2'') 9 (js ''argentina'') demo_midgame
     = Inr (demo_midgame, [Emit (js ''s2'') ''error'' (js ''This place has already been used'')])
   \<and> (\<exists>r'. submitPlace latin1 demo_db (js ''s2'') 9 (js '' albania  '') demo_midgame
     = Inr (demo_midgame\<lparr>gameRooms := (gameRooms demo_midgame)(js ''abc123'' \<mapsto> r')\<rparr>,
            [Broadcast (js ''abc123'') ''updateGame'' (Snapshot r')]))"
proof -
  have r: "gameRooms demo_midgame (js ''abc123'') = Some midgame_room" by (rule midgame_facts)
  have i: "currentPlayerIndex midgame_room < length (players midgame_room)" by (rule midgame_facts)
  have ne: "js ''abc123'' \<noteq> []" by simp
  show ?thesis
    using submit_check_order [OF midgame_facts(2) ne r i, where rt = latin1 and db = demo_db and pn = "js ''Atlantis''" and now = 9]
      submit_check_order [OF midgame_facts(1) ne r i, where rt = latin1 and db = demo_db and pn = "js ''Atlantis''" and now = 9]
      submit_check_order [OF midgame_facts(1) ne r i, where rt = latin1 and db = demo_db and pn = "js ''Brazil''" and now = 9]
      submit_check_order [OF midgame_facts(1) ne r i, where rt = latin1 and db = demo_db and pn = "js ''argentina''" and now = 9]
      submit_check_order [OF midgame_facts(1) ne r i, where rt = latin1 and db = demo_db and pn = "js '' albania  ''" and now = 9]
    by (simp add: demo_first_failure midgame_facts)
qed

lemma gameRooms_update_same:
  "gameRooms s rid = Some r \<Longrightarrow> s\<lparr>gameRooms := (gameRooms s)(rid \<mapsto> r)\<rparr> = s"
  by (simp add: map_upd_triv)

lemma startGame_bound:
  "boundRoom s sid = Some (rid, r) \<Longrightarrow>
     startGame sid s =
       (s\<lparr>gameRooms := (gameRooms s)(rid \<mapsto> r\<lparr>started := True, letterInPlay := []\<rparr>)\<rparr>,
        [Broadcast rid ''gameStarted'' (Snapshot (r\<lparr>started := True, letterInPlay := []\<rparr>))])"
  by (simp add: startGame_def Let_def)

text \<open>
  C4, as the claim states it, fails: in the started room of the concrete game, where
  Argentina has been played and the letter in play is A, a second \<^verbatim>\<open>startGame\<close> changes the
  room: it clears the letter.
\<close>

theorem start_again_counterexample:
  "run latin1 demo_db [CreateRoom (js ''s1'') (js ''alice'') (js ''abc123''), JoinRoom (js ''s2'') (js ''abc123'') (js ''bob''),
                StartGame (js ''s1''), SubmitPlace (js ''s1'') 7 (js '' Argentina '')] initial = Inr demo_midgame
   \<and> map_option started (gameRooms demo_midgame (js ''abc123'')) = Some True
   \<and> map_option letterInPlay (gameRooms demo_midgame (js ''abc123'')) = Some (js ''A'')
   \<and> map_option letterInPlay (gameRooms (fst (startGame (js ''s1'') demo_midgame)) (js ''abc123'')) = Some []
   \<and> gameRooms (fst (startGame (js ''s1'') demo_midgame)) (js ''abc123'') \<noteq> gameRooms demo_midgame (js ''abc123'')"
proof -
  have again: "fst (startGame (js ''s1'') demo_midgame) =
      demo_midgame\<lparr>gameRooms := (gameRooms demo_midgame)
        (js ''abc123'' \<mapsto> midgame_room\<lparr>started := True, letterInPlay := []\<rparr>)\<rparr>"
    by (simp add: startGame_def boundRoom_def Let_def midgame_facts)
  have before: "map_option started (gameRooms demo_midgame (js ''abc123'')) = Some True"
      "map_option letterInPlay (gameRooms demo_midgame (js ''abc123'')) = Some (js ''A'')"
    by (simp_all add: midgame_facts midgame_room_def)
  have after: "map_option letterInPlay (gameRooms (fst (startGame (js ''s1'') demo_midgame)) (js ''abc123'')) = Some []"
    unfolding again by simp
  from before(2) after
  have "gameRooms (fst (startGame (js ''s1'') demo_midgame)) (js ''abc123'') \<noteq> gameRooms demo_midgame (js ''abc123'')"
    by auto
  with run_demo_midgame before after show ?thesis by simp
qed

text \<open>
  C4, amended. \<^verbatim>\<open>startGame\<close> sets \<open>started\<close>, resets \<open>letterInPlay\<close> to the empty string and
  leaves \<open>currentPlayerIndex\<close>, the players and the history as they are; the new room is
  broadcast as \<^verbatim>\<open>gameStarted\<close>. Invoking it again on the result changes nothing and sends the
  same broadcast; and in a room that is started and has no letter in play it leaves the
  state unchanged.
\<close>

theorem start_game_effect:
  assumes "roomId s sid = Some rid" and "rid \<noteq> []" and "gameRooms s rid = Some r"
  shows "\<exists>r'. startGame sid s =
                 (s\<lparr>gameRooms := (gameRooms s)(rid \<mapsto> r')\<rparr>,
                  [Broadcast rid ''gameStarted'' (Snapshot r')])
            \<and> started r' \<and> letterInPlay r' = []
            \<and> currentPlayerIndex r' = currentPlayerIndex r
            \<and> players r' = players r \<and> history r' = history r
            \<and> startGame sid (fst (startGame sid s)) = startGame sid s
            \<and> (started r \<and> letterInPlay r = [] \<longrightarrow> fst (startGame sid s) = s)"
proof -
  let ?r' = "r\<lparr>started := True, letterInPlay := []\<rparr>"
  let ?s' = "s\<lparr>gameRooms := (gameRooms s)(rid \<mapsto> ?r')\<rparr>"
  have b: "boundRoom s sid = Some (rid, r)"
    using assms by (rule boundRoom_SomeI)
  have one: "startGame sid s = (?s', [Broadcast rid ''gameStarted'' (Snapshot ?r')])"
    using b by (rule startGame_bound)
  have b': "boundRoom ?s' sid = Some (rid, ?r')"
    using assms(1,2) by (simp add: boundRoom_def)
  have two: "startGame sid ?s' = (?s', [Broadcast rid ''gameStarted'' (Snapshot ?r')])"
    using startGame_bound [OF b'] by simp
  have again: "startGame sid (fst (startGame sid s)) = startGame sid s"
    using one two by simp
  have same: "fst (startGame sid s) = s" if "started r \<and> letterInPlay r = []"
  proof -
    from that have "?r' = r" by simp
    then show ?thesis using one assms(3) by (simp add: gameRooms_update_same)
  qed
  from one again same show ?thesis
    by (intro exI [of _ ?r']) simp
qed

theorem start_game_effect_witness:
  "\<exists>r'. startGame (js ''s1'') demo_midgame =
          (demo_midgame\<lparr>gameRooms := (gameRooms demo_midgame)(js ''abc123'' \<mapsto> r')\<rparr>,
           [Broadcast (js ''abc123'') ''gameStarted'' (Snapshot r')])
      \<and> started r' \<and> letterInPlay r' = [] \<and> currentPlayerIndex r' = 1
      \<and> startGame (js ''s1'') (fst (startGame (js ''s1'') demo_midgame)) = startGame (js ''s1'') demo_midgame"
proof -
  have ne: "js ''abc123'' \<noteq> []" by simp
  show ?thesis
    using start_game_effect [OF midgame_facts(2) ne midgame_facts(3)]
    by (auto simp: midgame_facts)
qed

text \<open>
  C5, as the claim states it, fails: in the lobby of the concrete game (created, never
  started) the creator's submission of Argentina is accepted: it is appended to the
  history, the score becomes 1 and the letter in play becomes A.
\<close>

theorem submit_in_lobby_counterexample:
  "run latin1 demo_db [CreateRoom (js ''s1'') (js ''alice'') (js ''abc123'')] initial = Inr demo_lobby
   \<and> map_option started (gameRooms demo_lobby (js ''abc123'')) = Some False
   \<and> submitPlace latin1 demo_db (js ''s1'') 7 (js ''Argentina'') demo_lobby =
       Inr (demo_lobby\<lparr>gameRooms := [(js ''abc123'') \<mapsto>
              \<lparr>players = [alice\<lparr>score := 1\<rparr>],
               history = [\<lparr>player = js ''alice'', place = js ''Argentina'', timestamp = 7\<rparr>],
               currentPlayerIndex = 0, letterInPlay = js ''A'', started = False\<rparr>]\<rparr>,
            [Broadcast (js ''abc123'') ''updateGame'' (Snapshot
              \<lparr>players = [alice\<lparr>score := 1\<rparr>],
               history = [\<lparr>player = js ''alice'', place = js ''Argentina'', timestamp = 7\<rparr>],
               currentPlayerIndex = 0, letterInPlay = js ''A'', started = False\<rparr>)])"
proof -
  have flag: "map_option started (gameRooms demo_lobby (js ''abc123'')) = Some False"
    by (simp add: lobby_facts)
  have sub: "submitPlace latin1 demo_db (js ''s1'') 7 (js ''Argentina'') demo_lobby =
       Inr (demo_lobby\<lparr>gameRooms := [(js ''abc123'') \<mapsto>
              \<lparr>players = [alice\<lparr>score := 1\<rparr>],
               history = [\<lparr>player = js ''alice'', place = js ''Argentina'', timestamp = 7\<rparr>],
               currentPlayerIndex = 0, letterInPlay = js ''A'', started = False\<rparr>]\<rparr>,
            [Broadcast (js ''abc123'') ''updateGame'' (Snapshot
              \<lparr>players = [alice\<lparr>score := 1\<rparr>],
               history = [\<lparr>player = js ''alice'', place = js ''Argentina'', timestamp = 7\<rparr>],
               currentPlayerIndex = 0, letterInPlay = js ''A'', started = False\<rparr>)])"
    by (simp add: submitPlace_def boundRoom_def Let_def demo_lobby_def lobby_room_def alice_def
        demo_trim demo_valid demo_letter)
  from run_demo_lobby flag sub show ?thesis by simp
qed

text \<open>
  C5, amended. \<^verbatim>\<open>submitPlace\<close> does not read \<open>started\<close>. In a room with \<open>started = false\<close> a
  submission from the player under the turn pointer that passes the four checks is accepted
  as in a started room: one entry is appended to the history, the acting player's score
  grows by 1, the letter in play becomes the uppercased last character, the turn pointer
  advances, and \<open>started\<close> stays false.
\<close>

theorem submit_in_lobby_accepted:
  assumes "roomId s sid = Some rid" and "rid \<noteq> []" and "gameRooms s rid = Some r"
    and "\<not> started r"
    and "currentPlayerIndex r < length (players r)"
    and "id_player (players r ! currentPlayerIndex r) = sid"
    and "isValidPlace rt db (trim pn)"
    and "letterInPlay r = [] \<or> toLowerCase rt (charAt (trim pn) 0) = toLowerCase rt (letterInPlay r)"
    and "\<forall>e \<in> set (history r). toLowerCase rt (place e) \<noteq> toLowerCase rt (trim pn)"
  shows "\<exists>r'. submitPlace rt db sid now pn s =
                 Inr (s\<lparr>gameRooms := (gameRooms s)(rid \<mapsto> r')\<rparr>,
                      [Broadcast rid ''updateGame'' (Snapshot r')])
            \<and> history r' = history r @
                 [\<lparr>player = username (players r ! currentPlayerIndex r),
                   place = trim pn, timestamp = now\<rparr>]
            \<and> score (players r' ! currentPlayerIndex r)
                 = score (players r ! currentPlayerIndex r) + 1
            \<and> letterInPlay r' = toUpperCase rt (if trim pn = [] then [] else [last (trim pn)])
            \<and> currentPlayerIndex r' = (currentPlayerIndex r + 1) mod length (players r)
            \<and> \<not> started r'"
proof -
  let ?r' = "acceptedRoom rt r now (trim pn)"
  have b: "boundRoom s sid = Some (rid, r)"
    using assms(1-3) by (rule boundRoom_SomeI)
  have nodup: "\<not> list_ex (\<lambda>entry. toLowerCase rt (place entry) = toLowerCase rt (trim pn)) (history r)"
    using assms(9) by (simp add: list_ex_iff)
  have run: "submitPlace rt db sid now pn s =
           Inr (s\<lparr>gameRooms := (gameRooms s)(rid \<mapsto> ?r')\<rparr>,
                [Broadcast rid ''updateGame'' (Snapshot ?r')])"
    by (rule submitPlace_accept [OF b assms(5-8) nodup])
  have fields: "history ?r' = history r @
                 [\<lparr>player = username (players r ! currentPlayerIndex r),
                   place = trim pn, timestamp = now\<rparr>]"
      "score (players ?r' ! currentPlayerIndex r) = score (players r ! currentPlayerIndex r) + 1"
      "letterInPlay ?r' = toUpperCase rt (if trim pn = [] then [] else [last (trim pn)])"
      "currentPlayerIndex ?r' = (currentPlayerIndex r + 1) mod length (players r)"
      "\<not> started ?r'"
    using assms(4,5) by (simp_all add: acceptedRoom_def charAt_last)
  from run fields show ?thesis by blast
qed

lemma demo_argentina_last: "toUpperCase latin1 [last (js ''Argentina'')] = js ''A''"
  by code_simp

theorem submit_in_lobby_accepted_witness:
  "\<exists>r'. submitPlace latin1 demo_db (js ''s1'') 7 (js ''Argentina'') demo_lobby =
           Inr (demo_lobby\<lparr>gameRooms := (gameRooms demo_lobby)(js ''abc123'' \<mapsto> r')\<rparr>,
                [Broadcast (js ''abc123'') ''updateGame'' (Snapshot r')])
      \<and> history r' = [\<lparr>player = js ''alice'', place = js ''Argentina'', timestamp = 7\<rparr>]
      \<and> score (players r' ! 0) = 1
      \<and> letterInPlay r' = js ''A''
      \<and> currentPlayerIndex r' = 0
      \<and> \<not> started r'"
proof -
  have ne: "js ''abc123'' \<noteq> []" by simp
  have v: "isValidPlace latin1 demo_db (trim (js ''Argentina''))" by (simp add: demo_trim demo_valid)
  have l: "letterInPlay lobby_room = []
      \<or> toLowerCase latin1 (charAt (trim (js ''Argentina'')) 0) = toLowerCase latin1 (letterInPlay lobby_room)"
    by (simp add: lobby_facts)
  have d: "\<forall>e \<in> set (history lobby_room). toLowerCase latin1 (place e) \<noteq> toLowerCase latin1 (trim (js ''Argentina''))"
    by (simp add: lobby_facts)
  show ?thesis
    using submit_in_lobby_accepted [OF lobby_facts(1) ne lobby_facts(2) lobby_facts(9)
        lobby_facts(3) lobby_facts(4) v l d, where now = 7]
    by (simp add: lobby_facts demo_trim demo_argentina_last alice_def)
qed

lemma uuidToken_not_inherited: "uuidToken t \<Longrightarrow> t \<notin> set objectPrototypeKeys"
proof
  assume t: "uuidToken t" and "t \<in> set objectPrototypeKeys"
  moreover have "\<forall>k \<in> set objectPrototypeKeys. length k \<noteq> 6"
    by (simp add: objectPrototypeKeys_def length_js)
  ultimately show False by (auto simp: uuidToken_def)
qed

lemma demo_token: "uuidToken (js ''abc123'')" "js ''abc123'' \<notin> set objectPrototypeKeys"
  by (code_simp, simp add: objectPrototypeKeys_def)

lemma findIndex_Some:
  "findIndex P xs = Some i \<Longrightarrow> i < length xs \<and> P (xs ! i) \<and> (\<forall>j < i. \<not> P (xs ! j))"
proof (induction xs arbitrary: i)
  case Nil
  then show ?case by simp
next
  case (Cons x xs)
  show ?case
  proof (cases "P x")
    case True
    with Cons.prems show ?thesis by simp
  next
    case False
    with Cons.prems obtain k where k: "findIndex P xs = Some k" and i: "i = Suc k"
      by auto
    from Cons.IH [OF k] False show ?thesis
      unfolding i by (auto simp: less_Suc_eq_0_disj)
  qed
qed

lemma disconnect_bound:
  assumes "boundRoom s sid = Some (rid, r)"
    and "findIndex (\<lambda>p. id_player p = sid) (players r) = Some i"
  shows "disconnect sid s =
     (let r' = r\<lparr>players := splice1 i (players r),
                  currentPlayerIndex := (if i \<le> currentPlayerIndex r \<and> 0 < currentPlayerIndex r
                     then currentPlayerIndex r - 1 else currentPlayerIndex r)\<rparr>
      in if players r' = [] then (s\<lparr>gameRooms := (gameRooms s)(rid := None)\<rparr>, [])
         else (s\<lparr>gameRooms := (gameRooms s)(rid \<mapsto> r')\<rparr>,
               [Broadcast rid ''playerLeft'' (PlayerLeft sid r')]))"
  using assms by (simp add: disconnect_def Let_def)

lemma length_splice1: "i < length xs \<Longrightarrow> length (splice1 i xs) = length xs - 1"
  by (simp add: splice1_def)

lemma splice1_Nil_iff:
  assumes "i < length xs"
  shows "splice1 i xs = [] \<longleftrightarrow> length xs = 1"
proof -
  have "splice1 i xs = [] \<longleftrightarrow> length (splice1 i xs) = 0" by simp
  also have "\<dots> \<longleftrightarrow> length xs = 1"
    using assms unfolding length_splice1 [OF assms] by arith
  finally show ?thesis .
qed

text \<open>
  C6. When a bound connection disconnects and \<open>i\<close> is the index of its (first) player entry,
  exactly that entry is deleted from \<open>players\<close>, and the turn pointer is decremented by 1 if
  \<open>i \<le> currentPlayerIndex\<close> and \<open>currentPlayerIndex > 0\<close>, and left alone otherwise. When the
  entry was the last one the room is removed from the registry, nothing is broadcast, and a
  later \<^verbatim>\<open>joinRoom\<close> with that identifier is answered with "Room not found". The identifier
  of a room is a token of \<^verbatim>\<open>createGameRoom\<close>, six hexadecimal digits, and so not the name of
  a member of \<^verbatim>\<open>Object.prototype\<close> (\<open>uuidToken_not_inherited\<close>, \<open>run_tokensOnly\<close>).
\<close>

theorem disconnect_removes_player:
  assumes "roomId s sid = Some rid" and "rid \<noteq> []" and "gameRooms s rid = Some r"
    and "findIndex (\<lambda>p. id_player p = sid) (players r) = Some i"
  shows "i < length (players r) \<and> id_player (players r ! i) = sid
    \<and> (length (players r) = 1 \<longrightarrow>
         disconnect sid s = (s\<lparr>gameRooms := (gameRooms s)(rid := None)\<rparr>, [])
         \<and> (rid \<notin> set objectPrototypeKeys \<longrightarrow>
              (\<forall>sid' uname. joinRoom sid' rid uname (fst (disconnect sid s)) =
                 Inr (fst (disconnect sid s),
                      [Callback sid' (JoinFailed (js ''Room not found''))]))))
    \<and> (length (players r) \<noteq> 1 \<longrightarrow>
         (\<exists>r'. disconnect sid s =
                  (s\<lparr>gameRooms := (gameRooms s)(rid \<mapsto> r')\<rparr>,
                   [Broadcast rid ''playerLeft'' (PlayerLeft sid r')])
            \<and> players r' = take i (players r) @ drop (Suc i) (players r)
            \<and> length (players r') = length (players r) - 1
            \<and> currentPlayerIndex r' =
                 (if i \<le> currentPlayerIndex r \<and> 0 < currentPlayerIndex r
                  then currentPlayerIndex r - 1 else currentPlayerIndex r)
            \<and> history r' = history r \<and> letterInPlay r' = letterInPlay r
            \<and> started r' = started r))"
proof -
  let ?r' = "r\<lparr>players := splice1 i (players r),
                  currentPlayerIndex := (if i \<le> currentPlayerIndex r \<and> 0 < currentPlayerIndex r
                     then currentPlayerIndex r - 1 else currentPlayerIndex r)\<rparr>"
  have b: "boundRoom s sid = Some (rid, r)"
    using assms(1-3) by (rule boundRoom_SomeI)
  from findIndex_Some [OF assms(4)]
  have i: "i < length (players r)" and p: "id_player (players r ! i) = sid"
    by simp_all
  note d = disconnect_bound [OF b assms(4)]
  have empty: "players ?r' = [] \<longleftrightarrow> length (players r) = 1"
    using i by (simp add: splice1_Nil_iff)
  have last: "disconnect sid s = (s\<lparr>gameRooms := (gameRooms s)(rid := None)\<rparr>, [])
         \<and> (rid \<notin> set objectPrototypeKeys \<longrightarrow>
              (\<forall>sid' uname. joinRoom sid' rid uname (fst (disconnect sid s)) =
                 Inr (fst (disconnect sid s),
                      [Callback sid' (JoinFailed (js ''Room not found''))])))"
    if "length (players r) = 1"
  proof -
    from that empty d have e: "disconnect sid s = (s\<lparr>gameRooms := (gameRooms s)(rid := None)\<rparr>, [])"
      by (simp add: Let_def)
    then show ?thesis by (simp add: joinRoom_def lookupRoom_def)
  qed
  have more: "\<exists>r'. disconnect sid s =
                  (s\<lparr>gameRooms := (gameRooms s)(rid \<mapsto> r')\<rparr>,
                   [Broadcast rid ''playerLeft'' (PlayerLeft sid r')])
            \<and> players r' = take i (players r) @ drop (Suc i) (players r)
            \<and> length (players r') = length (players r) - 1
            \<and> currentPlayerIndex r' =
                 (if i \<le> currentPlayerIndex r \<and> 0 < currentPlayerIndex r
                  then currentPlayerIndex r - 1 else currentPlayerIndex r)
            \<and> history r' = history r \<and> letterInPlay r' = letterInPlay r
            \<and> started r' = started r"
    if "length (players r) \<noteq> 1"
  proof -
    from that empty d have "disconnect sid s =
        (s\<lparr>gameRooms := (gameRooms s)(rid \<mapsto> ?r')\<rparr>,
         [Broadcast rid ''playerLeft'' (PlayerLeft sid ?r')])"
      by (simp add: Let_def)
    moreover have "players ?r' = take i (players r) @ drop (Suc i) (players r)"
      by (simp add: splice1_def)
    moreover have "length (players ?r') = length (players r) - 1"
      using i by (simp add: length_splice1)
    ultimately show ?thesis
      by (intro exI [of _ ?r']) simp
  qed
  from i p last more show ?thesis by blast
qed

lemma trio_facts:
  "roomId demo_trio (js ''s2'') = Some (js ''abc123'')"
  "gameRooms demo_trio (js ''abc123'') = Some trio_room"
  "players trio_room = [alice\<lparr>score := 1\<rparr>, bob\<lparr>score := 1\<rparr>, carol]"
  "currentPlayerIndex trio_room = 2"
  "findIndex (\<lambda>p. id_player p = js ''s2'') (players trio_room) = Some 1"
  by (simp_all add: demo_trio_def trio_room_def alice_def bob_def carol_def)

lemma lobby_find: "findIndex (\<lambda>p. id_player p = js ''s1'') (players lobby_room) = Some 0"
  by (simp add: lobby_room_def alice_def)

theorem disconnect_removes_player_witness:
  "(\<exists>r'. disconnect (js ''s2'') demo_trio =
           (demo_trio\<lparr>gameRooms := (gameRooms demo_trio)(js ''abc123'' \<mapsto> r')\<rparr>,
            [Broadcast (js ''abc123'') ''playerLeft'' (PlayerLeft (js ''s2'') r')])
      \<and> players r' = [alice\<lparr>score := 1\<rparr>, carol]
      \<and> currentPlayerIndex r' = 1)
   \<and> disconnect (js ''s1'') demo_lobby = (demo_lobby\<lparr>gameRooms := (gameRooms demo_lobby)(js ''abc123'' := None)\<rparr>, [])
   \<and> joinRoom (js ''s9'') (js ''abc123'') (js ''zoe'') (fst (disconnect (js ''s1'') demo_lobby)) =
       Inr (fst (disconnect (js ''s1'') demo_lobby),
            [Callback (js ''s9'') (JoinFailed (js ''Room not found''))])"
proof -
  have ne: "js ''abc123'' \<noteq> []" by simp
  have trio: "\<exists>r'. disconnect (js ''s2'') demo_trio =
           (demo_trio\<lparr>gameRooms := (gameRooms demo_trio)(js ''abc123'' \<mapsto> r')\<rparr>,
            [Broadcast (js ''abc123'') ''playerLeft'' (PlayerLeft (js ''s2'') r')])
      \<and> players r' = [alice\<lparr>score := 1\<rparr>, carol]
      \<and> currentPlayerIndex r' = 1"
    using disconnect_removes_player [OF trio_facts(1) ne trio_facts(2) trio_facts(5)]
    by (auto simp: trio_facts)
  have lobby: "disconnect (js ''s1'') demo_lobby = (demo_lobby\<lparr>gameRooms := (gameRooms demo_lobby)(js ''abc123'' := None)\<rparr>, [])
   \<and> joinRoom (js ''s9'') (js ''abc123'') (js ''zoe'') (fst (disconnect (js ''s1'') demo_lobby)) =
       Inr (fst (disconnect (js ''s1'') demo_lobby),
            [Callback (js ''s9'') (JoinFailed (js ''Room not found''))])"
  proof -
    have one: "length (players lobby_room) = 1" by (simp add: lobby_facts)
    note d = disconnect_removes_player [OF lobby_facts(1) ne lobby_facts(2) lobby_find]
    from d one have "disconnect (js ''s1'') demo_lobby =
        (demo_lobby\<lparr>gameRooms := (gameRooms demo_lobby)(js ''abc123'' := None)\<rparr>, [])"
      by blast
    moreover from d one demo_token(2)
    have "\<forall>sid' uname. joinRoom sid' (js ''abc123'') uname (fst (disconnect (js ''s1'') demo_lobby)) =
        Inr (fst (disconnect (js ''s1'') demo_lobby),
             [Callback sid' (JoinFailed (js ''Room not found''))])"
      by blast
    ultimately show ?thesis by blast
  qed
  from trio lobby show ?thesis by blast
qed

subsection \<open>Joining a room\<close>

text \<open>
  What \<^verbatim>\<open>joinRoom\<close> does, case by case: an identifier that is neither stored nor the name of
  an inherited member is answered with "Room not found"; the name of an inherited member
  that is not stored makes the handler throw; a started room is answered with "Game already
  started"; in these cases the state is unchanged. Otherwise, whatever the number of
  players, a player with the sender's id, the given username and score 0 is appended at the
  end of \<open>players\<close>, the connection is bound to the room, and the join succeeds.
\<close>

lemma joinRoom_outcomes:
  "(gameRooms s rid = None \<and> rid \<notin> set objectPrototypeKeys \<longrightarrow>
      joinRoom sid rid uname s = Inr (s, [Callback sid (JoinFailed (js ''Room not found''))]))
   \<and> (gameRooms s rid = None \<and> rid \<in> set objectPrototypeKeys \<longrightarrow>
      joinRoom sid rid uname s = Inl TypeError)
   \<and> (\<forall>r. gameRooms s rid = Some r \<and> started r \<longrightarrow>
      joinRoom sid rid uname s = Inr (s, [Callback sid (JoinFailed (js ''Game already started''))]))
   \<and> (\<forall>r. gameRooms s rid = Some r \<and> \<not> started r \<longrightarrow>
      (\<exists>r'. joinRoom sid rid uname s =
               Inr (s\<lparr>gameRooms := (gameRooms s)(rid \<mapsto> r'), roomId := (roomId s)(sid \<mapsto> rid)\<rparr>,
                    [SocketJoin sid rid, Callback sid (JoinOk r'),
                     Broadcast rid ''updateRoom'' (Snapshot r')])
          \<and> players r' = players r @ [\<lparr>id_player = sid, username = uname, score = 0\<rparr>]
          \<and> history r' = history r \<and> currentPlayerIndex r' = currentPlayerIndex r
          \<and> letterInPlay r' = letterInPlay r \<and> started r' = started r))"
  by (auto simp: joinRoom_def lookupRoom_def Let_def)

lemma joinRoom_demo:
  "joinRoom (js ''s9'') (js ''abc123'') (js ''zoe'') demo_closed =
     Inr (demo_closed, [Callback (js ''s9'') (JoinFailed (js ''Room not found''))])"
  "joinRoom (js ''s9'') (js ''abc123'') (js ''zoe'') demo_midgame =
     Inr (demo_midgame, [Callback (js ''s9'') (JoinFailed (js ''Game already started''))])"
  "\<exists>r'. joinRoom (js ''s2'') (js ''abc123'') (js ''bob'') demo_lobby =
          Inr (demo_lobby\<lparr>gameRooms := (gameRooms demo_lobby)(js ''abc123'' \<mapsto> r'),
                          roomId := (roomId demo_lobby)(js ''s2'' \<mapsto> js ''abc123'')\<rparr>,
               [SocketJoin (js ''s2'') (js ''abc123''), Callback (js ''s2'') (JoinOk r'),
                Broadcast (js ''abc123'') ''updateRoom'' (Snapshot r')])
        \<and> players r' = [alice, bob]"
proof -
  have closed: "gameRooms demo_closed (js ''abc123'') = None"
    by (simp add: demo_closed_def)
  have mid: "gameRooms demo_midgame (js ''abc123'') = Some midgame_room \<and> started midgame_room"
    by (simp add: midgame_facts midgame_room_def)
  have lobby: "gameRooms demo_lobby (js ''abc123'') = Some lobby_room \<and> \<not> started lobby_room"
    by (simp add: lobby_facts)
  show "joinRoom (js ''s9'') (js ''abc123'') (js ''zoe'') demo_closed =
     Inr (demo_closed, [Callback (js ''s9'') (JoinFailed (js ''Room not found''))])"
    using joinRoom_outcomes [of demo_closed "js ''abc123''" "js ''s9''" "js ''zoe''"]
      closed demo_token(2) by blast
  show "joinRoom (js ''s9'') (js ''abc123'') (js ''zoe'') demo_midgame =
     Inr (demo_midgame, [Callback (js ''s9'') (JoinFailed (js ''Game already started''))])"
    using joinRoom_outcomes [of demo_midgame "js ''abc123''" "js ''s9''" "js ''zoe''"] mid
    by blast
  show "\<exists>r'. joinRoom (js ''s2'') (js ''abc123'') (js ''bob'') demo_lobby =
          Inr (demo_lobby\<lparr>gameRooms := (gameRooms demo_lobby)(js ''abc123'' \<mapsto> r'),
                          roomId := (roomId demo_lobby)(js ''s2'' \<mapsto> js ''abc123'')\<rparr>,
               [SocketJoin (js ''s2'') (js ''abc123''), Callback (js ''s2'') (JoinOk r'),
                Broadcast (js ''abc123'') ''updateRoom'' (Snapshot r')])
        \<and> players r' = [alice, bob]"
    using joinRoom_outcomes [of demo_lobby "js ''abc123''" "js ''s2''" "js ''bob''"] lobby
    by (auto simp: lobby_facts bob_def)
qed

text \<open>
  C9 does not hold of the code. The claim says that \<^verbatim>\<open>joinRoom\<close> with an identifier that is
  not in the registry fails with "Room not found". \<^verbatim>\<open>gameRooms\<close> is a plain object, and for
  the identifier \<^verbatim>\<open>constructor\<close>, which is not stored in the registry of the lobby state of
  the concrete game, the test \<^verbatim>\<open>!gameRooms[roomId]\<close> finds the inherited member: the handler
  sends no "Room not found" and throws a \<^verbatim>\<open>TypeError\<close> at \<^verbatim>\<open>.players.push\<close>. The rest of the
  claim holds (\<open>joinRoom_outcomes\<close>).
\<close>

theorem join_inherited_name_throws:
  "run latin1 demo_db [CreateRoom (js ''s1'') (js ''alice'') (js ''abc123'')] initial = Inr demo_lobby
   \<and> gameRooms demo_lobby (js ''constructor'') = None
   \<and> joinRoom (js ''s9'') (js ''constructor'') (js ''zoe'') demo_lobby = Inl TypeError
   \<and> joinRoom (js ''s9'') (js ''constructor'') (js ''zoe'') demo_lobby
       \<noteq> Inr (demo_lobby, [Callback (js ''s9'') (JoinFailed (js ''Room not found''))])"
proof -
  have absent: "gameRooms demo_lobby (js ''constructor'') = None"
    by (simp add: demo_lobby_def)
  have inherited: "js ''constructor'' \<in> set objectPrototypeKeys"
    by (simp add: objectPrototypeKeys_def)
  from absent inherited
  have throws: "joinRoom (js ''s9'') (js ''constructor'') (js ''zoe'') demo_lobby = Inl TypeError"
    by (simp add: joinRoom_def lookupRoom_def)
  from run_demo_lobby absent throws show ?thesis by simp
qed

text \<open>
  C10. \<^verbatim>\<open>startGame\<close> and \<^verbatim>\<open>submitPlace\<close> from a connection that is bound to no room, or to an
  identifier that is no longer in the registry, do nothing: the state is unchanged and no
  effect (no error event, no broadcast) is produced.
\<close>

theorem unbound_is_silent:
  assumes "roomId s sid = None \<or> (\<exists>rid. roomId s sid = Some rid \<and> gameRooms s rid = None)"
  shows "startGame sid s = (s, []) \<and> submitPlace rt db sid now pn s = Inr (s, [])"
proof -
  from assms have "boundRoom s sid = None"
    by (auto simp: boundRoom_def)
  then show ?thesis
    by (simp add: startGame_def submitPlace_def)
qed

theorem unbound_is_silent_witness:
  "startGame (js ''s1'') initial = (initial, [])
   \<and> submitPlace latin1 demo_db (js ''s1'') 7 (js ''Argentina'') initial = Inr (initial, [])
   \<and> run latin1 demo_db [CreateRoom (js ''s1'') (js ''alice'') (js ''abc123''), Disconnect (js ''s1'')] initial = Inr demo_closed
   \<and> startGame (js ''s1'') demo_closed = (demo_closed, [])
   \<and> submitPlace latin1 demo_db (js ''s1'') 7 (js ''Argentina'') demo_closed = Inr (demo_closed, [])"
proof -
  have unbound: "roomId initial (js ''s1'') = None
      \<or> (\<exists>rid. roomId initial (js ''s1'') = Some rid \<and> gameRooms initial rid = None)"
    by (simp add: initial_def)
  have stale: "roomId demo_closed (js ''s1'') = None
      \<or> (\<exists>rid. roomId demo_closed (js ''s1'') = Some rid \<and> gameRooms demo_closed rid = None)"
    by (simp add: demo_closed_def)
  show ?thesis
    using unbound_is_silent [OF unbound, where rt = latin1 and db = demo_db and now = 7
          and pn = "js ''Argentina''"]
      unbound_is_silent [OF stale, where rt = latin1 and db = demo_db and now = 7
          and pn = "js ''Argentina''"] run_demo_closed
    by simp
qed

subsection \<open>How one event changes the rooms of the registry\<close>

lemma createRoom_rooms:
  "createRoom sid uname token s = Inr (s', effs) \<Longrightarrow>
     gameRooms s' = (gameRooms s)(token \<mapsto>
       \<lparr>players = [\<lparr>id_player = sid, username = uname, score = 0\<rparr>], history = [],
        currentPlayerIndex = 0, letterInPlay = [], started = False\<rparr>)"
  by (auto simp: createRoom_def createGameRoom_def Let_def)

lemma joinRoom_rooms:
  "joinRoom sid rid uname s = Inr (s', effs) \<Longrightarrow>
     gameRooms s' = gameRooms s
     \<or> (\<exists>r. gameRooms s rid = Some r
          \<and> gameRooms s' = (gameRooms s)(rid \<mapsto>
               r\<lparr>players := players r @ [\<lparr>id_player = sid, username = uname, score = 0\<rparr>]\<rparr>))"
  by (auto simp: joinRoom_def lookupRoom_def Let_def split: option.splits if_splits)

lemma startGame_rooms:
  "gameRooms (fst (startGame sid s)) = gameRooms s
     \<or> (\<exists>rid r. gameRooms s rid = Some r
          \<and> gameRooms (fst (startGame sid s)) =
              (gameRooms s)(rid \<mapsto> r\<lparr>started := True, letterInPlay := []\<rparr>))"
proof (cases "boundRoom s sid")
  case None
  then show ?thesis by (simp add: startGame_def)
next
  case (Some b)
  then obtain rid r where b: "boundRoom s sid = Some (rid, r)" by (cases b) simp
  then have r: "gameRooms s rid = Some r" by (simp add: boundRoom_SomeD)
  from startGame_bound [OF b]
  have "gameRooms (fst (startGame sid s)) = (gameRooms s)(rid \<mapsto> r\<lparr>started := True, letterInPlay := []\<rparr>)"
    by simp
  with r show ?thesis by blast
qed

lemma submitPlace_rooms:
  assumes "submitPlace rt db sid now pn s = Inr (s', effs)"
  shows "gameRooms s' = gameRooms s
     \<or> (\<exists>rid r. gameRooms s rid = Some r \<and> currentPlayerIndex r < length (players r)
          \<and> \<not> list_ex (\<lambda>entry. toLowerCase rt (place entry) = toLowerCase rt (trim pn)) (history r)
          \<and> gameRooms s' = (gameRooms s)(rid \<mapsto> acceptedRoom rt r now (trim pn)))"
proof (cases "boundRoom s sid")
  case None
  with assms show ?thesis by (simp add: submitPlace_def)
next
  case (Some b)
  then obtain rid r where b: "boundRoom s sid = Some (rid, r)" by (cases b) simp
  then have r: "gameRooms s rid = Some r" by (simp add: boundRoom_SomeD)
  show ?thesis
  proof (cases "currentPlayerIndex r < length (players r)")
    case False
    with assms b show ?thesis by (simp add: submitPlace_def)
  next
    case True
    let ?turn = "id_player (players r ! currentPlayerIndex r) = sid"
    let ?valid = "isValidPlace rt db (trim pn)"
    let ?letter = "letterInPlay r = [] \<or> toLowerCase rt (charAt (trim pn) 0) = toLowerCase rt (letterInPlay r)"
    let ?dup = "list_ex (\<lambda>entry. toLowerCase rt (place entry) = toLowerCase rt (trim pn)) (history r)"
    note rej = submitPlace_reject [OF b True, where rt = rt and db = db and now = now and pn = pn]
    show ?thesis
    proof (cases "?turn \<and> ?valid \<and> ?letter \<and> \<not> ?dup")
      case True
      with submitPlace_accept [OF b \<open>currentPlayerIndex r < length (players r)\<close>,
          where rt = rt and db = db and pn = pn and now = now] assms
      have "gameRooms s' = (gameRooms s)(rid \<mapsto> acceptedRoom rt r now (trim pn))"
        by auto
      with r \<open>currentPlayerIndex r < length (players r)\<close> True show ?thesis by blast
    next
      case False
      then consider "\<not> ?turn" | "?turn" "\<not> ?valid" | "?turn" "?valid" "\<not> ?letter"
        | "?turn" "?valid" "?letter" "?dup"
        by blast
      then have "submitPlace rt db sid now pn s = Inr (s, snd (projr (submitPlace rt db sid now pn s)))"
      proof cases
        case 1
        then show ?thesis using rej(1) by simp
      next
        case 2
        then show ?thesis using rej(2) by simp
      next
        case 3
        then show ?thesis using rej(3) by simp
      next
        case 4
        then show ?thesis using rej(4) by simp
      qed
      with assms show ?thesis by simp
    qed
  qed
qed

lemma disconnect_rooms:
  assumes "disconnect sid s = (s', effs)"
  shows "gameRooms s' = gameRooms s
     \<or> (\<exists>rid r i. gameRooms s rid = Some r \<and> i < length (players r)
          \<and> (if splice1 i (players r) = [] then gameRooms s' = (gameRooms s)(rid := None)
              else gameRooms s' = (gameRooms s)(rid \<mapsto>
                r\<lparr>players := splice1 i (players r),
                  currentPlayerIndex :=
                    (if i \<le> currentPlayerIndex r \<and> 0 < currentPlayerIndex r
                     then currentPlayerIndex r - 1 else currentPlayerIndex r)\<rparr>)))"
proof (cases "boundRoom s sid")
  case None
  with assms show ?thesis by (simp add: disconnect_def)
next
  case (Some b)
  then obtain rid r where b: "boundRoom s sid = Some (rid, r)" by (cases b) simp
  then have r: "gameRooms s rid = Some r" by (simp add: boundRoom_SomeD)
  show ?thesis
  proof (cases "findIndex (\<lambda>p. id_player p = sid) (players r)")
    case None
    with assms b show ?thesis by (simp add: disconnect_def)
  next
    case (Some i)
    from findIndex_Some [OF Some] have i: "i < length (players r)" by simp
    from disconnect_bound [OF b Some] assms
    have "if splice1 i (players r) = [] then gameRooms s' = (gameRooms s)(rid := None)
              else gameRooms s' = (gameRooms s)(rid \<mapsto>
                r\<lparr>players := splice1 i (players r),
                  currentPlayerIndex :=
                    (if i \<le> currentPlayerIndex r \<and> 0 < currentPlayerIndex r
                     then currentPlayerIndex r - 1 else currentPlayerIndex r)\<rparr>)"
      by (auto simp: Let_def split: if_splits)
    with r i show ?thesis by blast
  qed
qed

text \<open>A room of the registry after an event is an old room, a fresh one, or an old one changed by one of four updates.\<close>

lemma handle_room_cases:
  assumes "handle rt db e s = Inr (s', effs)" and "gameRooms s' rid = Some r'"
  obtains (same) "gameRooms s rid = Some r'"
  | (created) sid uname where "e = CreateRoom sid uname rid"
      "r' = \<lparr>players = [\<lparr>id_player = sid, username = uname, score = 0\<rparr>], history = [],
             currentPlayerIndex = 0, letterInPlay = [], started = False\<rparr>"
  | (joined) r p where "gameRooms s rid = Some r" "r' = r\<lparr>players := players r @ [p]\<rparr>"
  | (begun) r where "gameRooms s rid = Some r" "r' = r\<lparr>started := True, letterInPlay := []\<rparr>"
  | (accepted) r now p where "gameRooms s rid = Some r"
      "currentPlayerIndex r < length (players r)"
      "\<not> list_ex (\<lambda>entry. toLowerCase rt (place entry) = toLowerCase rt p) (history r)"
      "r' = acceptedRoom rt r now p"
  | (left) r i where "gameRooms s rid = Some r" "i < length (players r)"
      "splice1 i (players r) \<noteq> []"
      "r' = r\<lparr>players := splice1 i (players r),
               currentPlayerIndex := (if i \<le> currentPlayerIndex r \<and> 0 < currentPlayerIndex r
                  then currentPlayerIndex r - 1 else currentPlayerIndex r)\<rparr>"
proof (cases e)
  case (CreateRoom sid uname token)
  with assms(1) have "createRoom sid uname token s = Inr (s', effs)" by simp
  from createRoom_rooms [OF this] assms(2) CreateRoom show ?thesis
    by (cases "rid = token") (auto intro: same created)
next
  case (JoinRoom sid rid0 uname)
  with assms(1) have "joinRoom sid rid0 uname s = Inr (s', effs)" by simp
  from joinRoom_rooms [OF this] assms(2) show ?thesis
    by (cases "rid = rid0") (auto intro: same joined)
next
  case (StartGame sid)
  with assms(1) have "startGame sid s = (s', effs)" by simp
  then have "s' = fst (startGame sid s)" by simp
  with startGame_rooms [of sid s] assms(2) show ?thesis
    by (auto intro: same begun split: if_splits)
next
  case (SubmitPlace sid now pn)
  with assms(1) have "submitPlace rt db sid now pn s = Inr (s', effs)" by simp
  from submitPlace_rooms [OF this] assms(2) show ?thesis
    by (auto intro: same accepted split: if_splits)
next
  case (Disconnect sid)
  with assms(1) have "disconnect sid s = (s', effs)" by simp
  from disconnect_rooms [OF this]
  consider "gameRooms s' = gameRooms s"
    | rid0 r i where "gameRooms s rid0 = Some r" "i < length (players r)"
        "splice1 i (players r) = []" "gameRooms s' = (gameRooms s)(rid0 := None)"
    | rid0 r i where "gameRooms s rid0 = Some r" "i < length (players r)"
        "splice1 i (players r) \<noteq> []"
        "gameRooms s' = (gameRooms s)(rid0 \<mapsto>
           r\<lparr>players := splice1 i (players r),
             currentPlayerIndex := (if i \<le> currentPlayerIndex r \<and> 0 < currentPlayerIndex r
                then currentPlayerIndex r - 1 else currentPlayerIndex r)\<rparr>)"
    by (metis (no_types, lifting))
  then show ?thesis
  proof cases
    case 1
    with assms(2) show ?thesis by (simp add: same)
  next
    case 2
    with assms(2) have "gameRooms s rid = Some r'"
      by (cases "rid = rid0") simp_all
    then show ?thesis by (rule same)
  next
    case 3
    show ?thesis
    proof (cases "rid = rid0")
      case True
      with 3 assms(2) show ?thesis by (intro left [of r i]) simp_all
    next
      case False
      with 3 assms(2) show ?thesis by (simp add: same)
    qed
  qed
qed

subsection \<open>Invariants of the reachable states\<close>

lemma roomsPopulated_initial: "roomsPopulated initial"
  by (simp add: roomsPopulated_def initial_def)

lemma splice1_index:
  assumes "i < length xs" and "c < length xs" and "splice1 i xs \<noteq> []"
  shows "(if i \<le> c \<and> 0 < c then c - 1 else c) < length (splice1 i xs)"
proof -
  have "length xs \<noteq> 1"
    using assms(1,3) by (simp add: splice1_Nil_iff)
  with assms(1,2) show ?thesis
    unfolding length_splice1 [OF assms(1)] by auto
qed

lemma handle_populated:
  assumes "roomsPopulated s" and "handle rt db e s = Inr (s', effs)"
  shows "roomsPopulated s'"
  unfolding roomsPopulated_def
proof (intro allI impI)
  fix rid r'
  assume r': "gameRooms s' rid = Some r'"
  from assms(2) r' show "currentPlayerIndex r' < length (players r')"
  proof (cases rule: handle_room_cases)
    case same
    with assms(1) show ?thesis by (simp add: roomsPopulated_def)
  next
    case (created sid uname)
    then show ?thesis by simp
  next
    case (joined r p)
    with assms(1) have "currentPlayerIndex r < length (players r)"
      by (simp add: roomsPopulated_def)
    with joined show ?thesis by simp
  next
    case (begun r)
    with assms(1) have "currentPlayerIndex r < length (players r)"
      by (simp add: roomsPopulated_def)
    with begun show ?thesis by simp
  next
    case (accepted r now p)
    from accepted(2) have "0 < length (players r)" by (cases "players r") simp_all
    then have "(currentPlayerIndex r + 1) mod length (players r) < length (players r)"
      by (rule mod_less_divisor)
    with accepted(4) show ?thesis by (simp add: acceptedRoom_def)
  next
    case (left r i)
    with assms(1) have "currentPlayerIndex r < length (players r)"
      by (simp add: roomsPopulated_def)
    from splice1_index [OF left(2) this left(3)] left(4) show ?thesis by simp
  qed
qed

lemma reachable_populated: "reachable rt db s \<Longrightarrow> roomsPopulated s"
  by (induction rule: reachable.induct) (auto intro: roomsPopulated_initial handle_populated)

text \<open>
  In a reachable state no handler throws, except \<^verbatim>\<open>joinRoom\<close> with the name of an inherited
  member that is not stored in the registry.
\<close>

lemma handle_no_throw:
  assumes "reachable rt db s"
    and "\<forall>sid rid uname. e = JoinRoom sid rid uname
           \<longrightarrow> rid \<notin> set objectPrototypeKeys \<or> gameRooms s rid \<noteq> None"
  shows "\<exists>s' effs. handle rt db e s = Inr (s', effs)"
proof (cases e)
  case (CreateRoom sid uname token)
  then show ?thesis by (simp add: createRoom_def createGameRoom_def Let_def)
next
  case (JoinRoom sid rid uname)
  with assms(2) have "rid \<notin> set objectPrototypeKeys \<or> gameRooms s rid \<noteq> None" by simp
  then have "\<exists>s' effs. joinRoom sid rid uname s = Inr (s', effs)"
    by (auto simp: joinRoom_def lookupRoom_def Let_def split: option.splits)
  with JoinRoom show ?thesis by simp
next
  case (StartGame sid)
  then show ?thesis by (simp add: prod_eq_iff)
next
  case (SubmitPlace sid now pn)
  have "\<exists>s' effs. submitPlace rt db sid now pn s = Inr (s', effs)"
  proof (cases "boundRoom s sid")
    case None
    then show ?thesis by (simp add: submitPlace_def)
  next
    case (Some b)
    then obtain rid r where b: "boundRoom s sid = Some (rid, r)" by (cases b) simp
    with reachable_populated [OF assms(1)] have "currentPlayerIndex r < length (players r)"
      by (auto simp: roomsPopulated_def dest: boundRoom_SomeD)
    with b show ?thesis by (simp add: submitPlace_def Let_def)
  qed
  with SubmitPlace show ?thesis by simp
next
  case (Disconnect sid)
  then show ?thesis by (simp add: prod_eq_iff)
qed

text \<open>
  C7. In every state reachable from the empty server by \<^verbatim>\<open>createRoom\<close>, \<^verbatim>\<open>joinRoom\<close>,
  \<^verbatim>\<open>startGame\<close>, \<^verbatim>\<open>submitPlace\<close> and \<^verbatim>\<open>disconnect\<close> events, every room of the registry has no
  players or has its \<open>currentPlayerIndex\<close> below the number of players; and whatever event
  comes next, every room of the state it leads to satisfies this again.
\<close>

theorem turn_pointer_valid:
  assumes "reachable rt db s"
  shows "(\<forall>rid r. gameRooms s rid = Some r \<longrightarrow> validIndex r)
    \<and> (\<forall>e s' effs rid r'. handle rt db e s = Inr (s', effs) \<longrightarrow> gameRooms s' rid = Some r'
          \<longrightarrow> validIndex r')"
proof -
  have now: "roomsPopulated s" using assms by (rule reachable_populated)
  have "roomsPopulated s'" if "handle rt db e s = Inr (s', effs)" for e s' effs
    using now that by (rule handle_populated)
  with now show ?thesis
    by (auto simp: roomsPopulated_def validIndex_def)
qed

lemma reachable_demo_trio: "reachable latin1 demo_db demo_trio"
  using run_demo_trio by (rule run_reachable)

lemma trio_after_leave:
  "handle latin1 demo_db (Disconnect (js ''s3'')) demo_trio =
     Inr (demo_trio\<lparr>gameRooms := (gameRooms demo_trio)(js ''abc123'' \<mapsto>
            trio_room\<lparr>players := [alice\<lparr>score := 1\<rparr>, bob\<lparr>score := 1\<rparr>],
                        currentPlayerIndex := 1\<rparr>)\<rparr>,
          [Broadcast (js ''abc123'') ''playerLeft'' (PlayerLeft (js ''s3'')
            (trio_room\<lparr>players := [alice\<lparr>score := 1\<rparr>, bob\<lparr>score := 1\<rparr>],
                        currentPlayerIndex := 1\<rparr>))])"
  by (simp add: disconnect_def boundRoom_def splice1_def Let_def demo_trio_def trio_room_def
      alice_def bob_def carol_def)

theorem turn_pointer_valid_witness:
  "reachable latin1 demo_db demo_trio \<and> gameRooms demo_trio (js ''abc123'') = Some trio_room
   \<and> validIndex trio_room
   \<and> validIndex (trio_room\<lparr>players := [alice\<lparr>score := 1\<rparr>, bob\<lparr>score := 1\<rparr>],
                               currentPlayerIndex := 1\<rparr>)"
proof -
  let ?r' = "trio_room\<lparr>players := [alice\<lparr>score := 1\<rparr>, bob\<lparr>score := 1\<rparr>],
                        currentPlayerIndex := 1\<rparr>"
  let ?s' = "demo_trio\<lparr>gameRooms := (gameRooms demo_trio)(js ''abc123'' \<mapsto> ?r')\<rparr>"
  note inv = turn_pointer_valid [OF reachable_demo_trio]
  from inv trio_facts(2) have before: "validIndex trio_room" by blast
  have "gameRooms ?s' (js ''abc123'') = Some ?r'" by simp
  with inv trio_after_leave have after: "validIndex ?r'" by blast
  from reachable_demo_trio trio_facts(2) before after show ?thesis by blast
qed

subsection \<open>Distinct places\<close>

lemma placeKeys_accepted:
  "placeKeys rt (acceptedRoom rt r now p) = placeKeys rt r @ [toLowerCase rt p]"
  by (simp add: placeKeys_def acceptedRoom_def)

lemma dup_iff_placeKeys:
  "list_ex (\<lambda>entry. toLowerCase rt (place entry) = toLowerCase rt p) (history r)
     \<longleftrightarrow> toLowerCase rt p \<in> set (placeKeys rt r)"
  by (auto simp: list_ex_iff placeKeys_def intro: rev_image_eqI)

lemma handle_distinct:
  assumes "\<forall>rid r. gameRooms s rid = Some r \<longrightarrow> distinct (placeKeys rt r)"
    and "handle rt db e s = Inr (s', effs)" and "gameRooms s' rid = Some r'"
  shows "distinct (placeKeys rt r')"
  using assms(2,3)
proof (cases rule: handle_room_cases)
  case same
  with assms(1) show ?thesis by simp
next
  case (created sid uname)
  then show ?thesis by (simp add: placeKeys_def)
next
  case (joined r p)
  with assms(1) have "distinct (placeKeys rt r)" by simp
  with joined show ?thesis by (simp add: placeKeys_def)
next
  case (begun r)
  with assms(1) have "distinct (placeKeys rt r)" by simp
  with begun show ?thesis by (simp add: placeKeys_def)
next
  case (accepted r now p)
  with assms(1) have "distinct (placeKeys rt r)" by simp
  with accepted show ?thesis
    by (simp add: placeKeys_accepted dup_iff_placeKeys)
next
  case (left r i)
  with assms(1) have "distinct (placeKeys rt r)" by simp
  with left show ?thesis by (simp add: placeKeys_def)
qed

lemma reachable_distinct:
  "reachable rt db s \<Longrightarrow> gameRooms s rid = Some r \<Longrightarrow> distinct (placeKeys rt r)"
proof (induction arbitrary: rid r rule: reachable.induct)
  case init
  then show ?case by (simp add: initial_def)
next
  case (step s e s' effs)
  from step.IH have "\<forall>rid r. gameRooms s rid = Some r \<longrightarrow> distinct (placeKeys rt r)"
    by blast
  from handle_distinct [OF this step.hyps(2) step.prems] show ?case .
qed

text \<open>
  C8. In every reachable state the places of a room's history are pairwise different when
  compared without case. A submission whose trimmed name equals, without case, the place of
  a history entry of the sender's room is rejected: the state is unchanged and the sender
  gets an \<^verbatim>\<open>error\<close> event, which is "This place has already been used" when the three
  earlier checks pass.
\<close>

theorem history_places_distinct:
  assumes "reachable rt db s" and "gameRooms s rid = Some r"
  shows "distinct (placeKeys rt r)
    \<and> (\<forall>i j. i < j \<and> j < length (history r)
          \<longrightarrow> toLowerCase rt (place (history r ! i)) \<noteq> toLowerCase rt (place (history r ! j)))
    \<and> (\<forall>sid now pn. roomId s sid = Some rid \<and> rid \<noteq> []
            \<and> toLowerCase rt (trim pn) \<in> set (placeKeys rt r)
          \<longrightarrow> (\<exists>m. submitPlace rt db sid now pn s = Inr (s, [Emit sid ''error'' m])
                \<and> (id_player (players r ! currentPlayerIndex r) = sid
                    \<and> isValidPlace rt db (trim pn)
                    \<and> (letterInPlay r = []
                        \<or> toLowerCase rt (charAt (trim pn) 0) = toLowerCase rt (letterInPlay r))
                    \<longrightarrow> m = js ''This place has already been used'')))"
proof -
  have d: "distinct (placeKeys rt r)"
    using assms by (rule reachable_distinct)
  have idx: "toLowerCase rt (place (history r ! i)) \<noteq> toLowerCase rt (place (history r ! j))"
    if "i < j \<and> j < length (history r)" for i j
  proof -
    from that have "placeKeys rt r ! i \<noteq> placeKeys rt r ! j"
      using d by (simp add: placeKeys_def distinct_conv_nth)
    with that show ?thesis by (simp add: placeKeys_def)
  qed
  have pop: "currentPlayerIndex r < length (players r)"
    using reachable_populated [OF assms(1)] assms(2) by (simp add: roomsPopulated_def)
  have rej: "\<exists>m. submitPlace rt db sid now pn s = Inr (s, [Emit sid ''error'' m])
                \<and> (id_player (players r ! currentPlayerIndex r) = sid
                    \<and> isValidPlace rt db (trim pn)
                    \<and> (letterInPlay r = []
                        \<or> toLowerCase rt (charAt (trim pn) 0) = toLowerCase rt (letterInPlay r))
                    \<longrightarrow> m = js ''This place has already been used'')"
    if h: "roomId s sid = Some rid \<and> rid \<noteq> [] \<and> toLowerCase rt (trim pn) \<in> set (placeKeys rt r)"
    for sid now pn
  proof -
    let ?turn = "id_player (players r ! currentPlayerIndex r) = sid"
    let ?valid = "isValidPlace rt db (trim pn)"
    let ?letter = "letterInPlay r = [] \<or> toLowerCase rt (charAt (trim pn) 0) = toLowerCase rt (letterInPlay r)"
    let ?dup = "list_ex (\<lambda>entry. toLowerCase rt (place entry) = toLowerCase rt (trim pn)) (history r)"
    from h assms(2) have b: "boundRoom s sid = Some (rid, r)"
      by (simp add: boundRoom_SomeI)
    from h have dup: ?dup by (simp add: dup_iff_placeKeys)
    note rj = submitPlace_reject [OF b pop, where rt = rt and db = db and now = now and pn = pn]
    consider "\<not> ?turn" | "?turn" "\<not> ?valid" | "?turn" "?valid" "\<not> ?letter"
      | "?turn" "?valid" "?letter"
      by blast
    then show ?thesis
    proof cases
      case 1
      then show ?thesis using rj(1) by simp
    next
      case 2
      then show ?thesis using rj(2) by simp
    next
      case 3
      then show ?thesis using rj(3) by auto
    next
      case 4
      then show ?thesis using rj(4) dup by simp
    qed
  qed
  from d idx rej show ?thesis by blast
qed

theorem history_places_distinct_witness:
  "reachable latin1 demo_db demo_trio \<and> gameRooms demo_trio (js ''abc123'') = Some trio_room
   \<and> distinct (placeKeys latin1 trio_room)
   \<and> placeKeys latin1 trio_room = [js ''argentina'', js ''albania'']
   \<and> toLowerCase latin1 (trim (js '' ALBANIA '')) \<in> set (placeKeys latin1 trio_room)
   \<and> (\<exists>m. submitPlace latin1 demo_db (js ''s3'') 9 (js '' ALBANIA '') demo_trio
            = Inr (demo_trio, [Emit (js ''s3'') ''error'' m]))"
proof -
  have keys: "placeKeys latin1 trio_room = [js ''argentina'', js ''albania'']"
    by code_simp
  have dup: "toLowerCase latin1 (trim (js '' ALBANIA '')) \<in> set (placeKeys latin1 trio_room)"
    unfolding keys by code_simp
  have bound: "roomId demo_trio (js ''s3'') = Some (js ''abc123'') \<and> (js ''abc123'') \<noteq> []"
    by (simp add: demo_trio_def)
  from history_places_distinct [OF reachable_demo_trio trio_facts(2)] dup bound
  have "distinct (placeKeys latin1 trio_room)"
    and "\<exists>m. submitPlace latin1 demo_db (js ''s3'') 9 (js '' ALBANIA '') demo_trio
            = Inr (demo_trio, [Emit (js ''s3'') ''error'' m])"
    by blast+
  with reachable_demo_trio trio_facts(2) keys dup show ?thesis by blast
qed

subsection \<open>Room identifiers are tokens\<close>

lemma handle_roomId:
  assumes "handle rt db e s = Inr (s', effs)"
  shows "roomId s' = roomId s
    \<or> (\<exists>sid rid. roomId s' = (roomId s)(sid \<mapsto> rid) \<and> gameRooms s' rid \<noteq> None)"
proof (cases e)
  case (CreateRoom sid uname token)
  with assms have "roomId s' = (roomId s)(sid \<mapsto> token) \<and> gameRooms s' token \<noteq> None"
    by (auto simp: createRoom_def createGameRoom_def Let_def)
  then show ?thesis by blast
next
  case (JoinRoom sid rid uname)
  with assms have "roomId s' = roomId s
      \<or> (roomId s' = (roomId s)(sid \<mapsto> rid) \<and> gameRooms s' rid \<noteq> None)"
    by (auto simp: joinRoom_def lookupRoom_def Let_def split: option.splits if_splits)
  then show ?thesis by blast
next
  case (StartGame sid)
  with assms have "roomId s' = roomId s"
    by (auto simp: startGame_def Let_def split: option.splits)
  then show ?thesis ..
next
  case (SubmitPlace sid now pn)
  with assms have sub: "submitPlace rt db sid now pn s = Inr (s', effs)" by simp
  have "roomId s' = roomId s"
  proof (cases "boundRoom s sid")
    case None
    with sub show ?thesis by (simp add: submitPlace_def)
  next
    case (Some b)
    then obtain rid r where b: "boundRoom s sid = Some (rid, r)" by (cases b) simp
    with sub show ?thesis
      by (auto simp: submitPlace_def Let_def split: if_splits)
  qed
  then show ?thesis ..
next
  case (Disconnect sid)
  with assms have "roomId s' = roomId s"
    by (auto simp: disconnect_def Let_def split: option.splits if_splits)
  then show ?thesis ..
qed

lemma handle_tokensOnly:
  assumes "tokensOnly s" and "handle rt db e s = Inr (s', effs)"
    and "\<forall>sid uname token. e = CreateRoom sid uname token \<longrightarrow> uuidToken token"
  shows "tokensOnly s'"
proof -
  have rooms: "uuidToken rid" if "gameRooms s' rid = Some r'" for rid r'
    using assms(2) that
  proof (cases rule: handle_room_cases)
    case (created sid uname)
    with assms(3) show ?thesis by simp
  qed (use assms(1) in \<open>auto simp: tokensOnly_def\<close>)
  have bound: "uuidToken rid" if "roomId s' sid = Some rid" for sid rid
  proof -
    from handle_roomId [OF assms(2)]
    consider "roomId s' = roomId s"
      | sid0 rid0 where "roomId s' = (roomId s)(sid0 \<mapsto> rid0)" "gameRooms s' rid0 \<noteq> None"
      by blast
    then show ?thesis
    proof cases
      case 1
      with that assms(1) show ?thesis by (simp add: tokensOnly_def)
    next
      case 2
      show ?thesis
      proof (cases "sid = sid0")
        case True
        with 2 that rooms show ?thesis by auto
      next
        case False
        with 2 that assms(1) show ?thesis by (simp add: tokensOnly_def)
      qed
    qed
  qed
  from rooms bound show ?thesis by (simp add: tokensOnly_def)
qed

text \<open>
  When the tokens of the created rooms are UUID prefixes, every stored or bound identifier
  of the states of a run is one, and none is the name of an inherited member.
\<close>

lemma run_tokensOnly:
  "tokensOnly s \<Longrightarrow> uuidTokens es \<Longrightarrow> run rt db es s = Inr s' \<Longrightarrow> tokensOnly s'"
proof (induction es arbitrary: s)
  case Nil
  then show ?case by simp
next
  case (Cons e es)
  from Cons.prems(3) obtain s1 effs where h: "handle rt db e s = Inr (s1, effs)"
      and rest: "run rt db es s1 = Inr s'"
    by (auto split: sum.splits)
  from Cons.prems(2) have tok: "\<forall>sid uname token. e = CreateRoom sid uname token \<longrightarrow> uuidToken token"
      and more: "uuidTokens es"
    by (cases e; simp)+
  from handle_tokensOnly [OF Cons.prems(1) h tok] have "tokensOnly s1" .
  from Cons.IH [OF this more rest] show ?case .
qed

lemma tokensOnly_initial: "tokensOnly initial"
  by (simp add: tokensOnly_def initial_def)

lemma tokensOnly_not_inherited:
  "tokensOnly s \<Longrightarrow> gameRooms s rid = Some r \<or> roomId s sid = Some rid
     \<Longrightarrow> rid \<notin> set objectPrototypeKeys"
proof -
  assume "tokensOnly s" and "gameRooms s rid = Some r \<or> roomId s sid = Some rid"
  then have "uuidToken rid" by (auto simp: tokensOnly_def)
  then show ?thesis by (rule uuidToken_not_inherited)
qed

text \<open>
  So for a bound identifier the lookup among the stored keys, which \<open>boundRoom\<close> makes, is
  the lookup of the plain object.
\<close>

lemma bound_lookup_own:
  assumes "tokensOnly s" and "roomId s sid = Some rid"
  shows "lookupRoom (gameRooms s) rid = (case gameRooms s rid of None \<Rightarrow> Absent | Some r \<Rightarrow> Own r)"
proof -
  from assms have "rid \<notin> set objectPrototypeKeys"
    by (auto dest: tokensOnly_not_inherited)
  then show ?thesis
    by (simp add: lookupRoom_def split: option.splits)
qed

end
